theory Spec2Isabelle
  imports Complex_Main
begin

section \<open>Audiobook ingestion and series reconciliation (AudibleManager)\<close>

text \<open>
  A shallow embedding of \<^verbatim>\<open>server/src/services/audible-manager.ts\<close> (class
  \<^verbatim>\<open>AudibleManager\<close>), of the \<^verbatim>\<open>audiobooks\<close> table created by
  \<^verbatim>\<open>Database.init\<close> in \<^verbatim>\<open>server/src/utils/database.ts\<close>, and of the two
  functions of the older JavaScript class \<^verbatim>\<open>EnhancedAudibleManager\<close> that differ
  from their TypeScript counterparts.

  Conventions of the model:
  \<^item> a JavaScript string is a \<^typ>\<open>string\<close> (a list of 8-bit characters, so the
    Latin-1 part of a JavaScript string);
  \<^item> a JavaScript number is an exact rational (\<^typ>\<open>rat\<close>), where the program computes
    in IEEE doubles: sums, differences and comparisons are those of the program on values
    that are exact in double precision, as integers and halves of ordinary size are, and
    differ from it where the program rounds (1.14 + 1 is below 2.14 in doubles). The
    statements about the gaps between two positions are made for exact positions, on which
    the loops in double precision are shown to give the same placeholders;
  \<^item> \<^verbatim>\<open>undefined\<close> and \<^verbatim>\<open>null\<close> are \<^term>\<open>None\<close>;
  \<^item> a thrown exception is \<^term>\<open>Inl\<close> of an \<^verbatim>\<open>error\<close>;
  \<^item> the time stamps \<^verbatim>\<open>created_at\<close> and \<^verbatim>\<open>updated_at\<close> are left out.
\<close>

subsection \<open>Characters and strings\<close>

definition is_digit :: "char \<Rightarrow> bool" where
  "is_digit c = (let n = (of_char c :: nat) in 48 \<le> n \<and> n \<le> 57)"

text \<open>The line terminators that the regular expression dot does not match.\<close>

definition is_line_terminator :: "char \<Rightarrow> bool" where
  "is_line_terminator c = (let n = (of_char c :: nat) in n = 10 \<or> n = 13)"

text \<open>White space of \<^verbatim>\<open>\s\<close> and of \<^verbatim>\<open>trim\<close>: tab, line feed, vertical tab, form
  feed, carriage return, space, no-break space.\<close>

definition is_space :: "char \<Rightarrow> bool" where
  "is_space c = (let n = (of_char c :: nat) in (9 \<le> n \<and> n \<le> 13) \<or> n = 32 \<or> n = 160)"

definition to_lower :: "char \<Rightarrow> char" where
  "to_lower c = (let n = (of_char c :: nat) in
     if (65 \<le> n \<and> n \<le> 90) \<or> (192 \<le> n \<and> n \<le> 222 \<and> n \<noteq> 215)
     then char_of (n + 32) else c)"

definition toLowerCase :: "string \<Rightarrow> string" where
  "toLowerCase s = map to_lower s"

definition trim :: "string \<Rightarrow> string" where
  "trim s = rev (dropWhile is_space (rev (dropWhile is_space s)))"

subsection \<open>Numbers and their decimal text\<close>

definition digit_char :: "nat \<Rightarrow> char" where
  "digit_char d = ''0123456789'' ! (d mod 10)"

definition digit_val :: "char \<Rightarrow> nat" where
  "digit_val c = of_char c - 48"

function digits_of_nat :: "nat \<Rightarrow> string" where
  "digits_of_nat n = (if n < 10 then [digit_char n] else digits_of_nat (n div 10) @ [digit_char n])"
  by pat_completeness auto
termination
  by (relation "measure id") auto

declare digits_of_nat.simps [simp del]

text \<open>The digits after the decimal point of a fraction in \<open>[0, 1)\<close>, at most \<open>fuel\<close> of
  them.\<close>

fun frac_digits :: "nat \<Rightarrow> rat \<Rightarrow> string" where
  "frac_digits 0 f = []"
| "frac_digits (Suc fuel) f =
     (if f = 0 then []
      else digit_char (nat \<lfloor>f * 10\<rfloor>) # frac_digits fuel (f * 10 - of_int \<lfloor>f * 10\<rfloor>))"

text \<open>\<^verbatim>\<open>String(n)\<close> for a number: the decimal expansion, without an exponent. The
  program's text has the shortest digits that read back as the same double and switches to
  an exponent below \<open>10\<^sup>-\<^sup>6\<close> and from \<open>10\<^sup>2\<^sup>1\<close>; the two agree on integers and on
  short decimal fractions of ordinary size.\<close>

definition number_toString :: "rat \<Rightarrow> string" where
  "number_toString r =
     (let a = \<bar>r\<bar>; i = \<lfloor>a\<rfloor>; f = a - of_int i in
      (if r < 0 then ''-'' else '''') @ digits_of_nat (nat i) @
      (if f = 0 then '''' else CHR ''.'' # frac_digits 20 f))"

text \<open>Rounding to double precision. \<open>to_double x\<close> is the double nearest to \<open>x\<close>, with
  ties to the even significand: \<open>x\<close> is scaled by the power of two that brings it into
  \<open>[2\<^sup>5\<^sup>2, 2\<^sup>5\<^sup>3)\<close>, rounded to an integer and scaled back. The range of the exponent is
  not bounded here, so there is no overflow to \<^verbatim>\<open>Infinity\<close> and no subnormal number.\<close>

definition round_half_even :: "rat \<Rightarrow> int" where
  "round_half_even y =
     (let f = \<lfloor>y\<rfloor>; d = y - of_int f in
      if d < 1 / 2 then f else if 1 / 2 < d then f + 1 else if even f then f else f + 1)"

text \<open>The number of binary digits of a natural number.\<close>

function binary_length :: "nat \<Rightarrow> nat" where
  "binary_length n = (if n = 0 then 0 else Suc (binary_length (n div 2)))"
  by pat_completeness auto
termination
  by (relation "measure id") auto

declare binary_length.simps [simp del]

text \<open>The largest \<open>e\<close> with \<open>2\<^sup>e \<le> x\<close>, for a positive \<open>x\<close>, searched downwards from a
  start that is not below it. The second test only bounds the search: the first one holds
  by then.\<close>

function exponent_from :: "int \<Rightarrow> rat \<Rightarrow> int" where
  "exponent_from e x =
     (if 2 powi e \<le> x \<or> e \<le> - snd (quotient_of x) then e else exponent_from (e - 1) x)"
  by pat_completeness auto
termination
proof (relation "measure (\<lambda>(e, x). nat (e + snd (quotient_of x)))")
  show "wf (measure (\<lambda>(e, x). nat (e + snd (quotient_of x))))" by (rule wf_measure)
next
  fix e :: int and x :: rat
  assume "\<not> (2 powi e \<le> x \<or> e \<le> - snd (quotient_of x))"
  then have "0 < e + snd (quotient_of x)" by linarith
  then show "((e - 1, x), (e, x)) \<in> measure (\<lambda>(e, x). nat (e + snd (quotient_of x)))"
    by simp
qed

declare exponent_from.simps [simp del]

definition exponent :: "rat \<Rightarrow> int" where
  "exponent x = exponent_from (int (binary_length (nat \<lfloor>x\<rfloor>))) x"

definition to_double :: "rat \<Rightarrow> rat" where
  "to_double x =
     (if x = 0 then 0
      else let u = 2 powi (exponent \<bar>x\<bar> - 52) in of_int (round_half_even (x / u)) * u)"

text \<open>\<^verbatim>\<open>parseInt\<close> on a run of decimal digits; the value is exact, where the program
  rounds to a double beyond \<open>2\<^sup>5\<^sup>3\<close>.\<close>

definition parseInt :: "string \<Rightarrow> nat" where
  "parseInt ds = foldl (\<lambda>acc c. acc * 10 + digit_val c) 0 ds"

text \<open>\<^verbatim>\<open>parseFloat\<close> on a text made of digits and dots only: it reads the longest prefix
  of the form \<^verbatim>\<open>digits\<close>, \<^verbatim>\<open>digits.\<close>, \<^verbatim>\<open>digits.digits\<close> or \<^verbatim>\<open>.digits\<close>;
  \<^term>\<open>None\<close> is \<^verbatim>\<open>NaN\<close>. The value is the decimal rounded to the nearest double.\<close>

definition frac_value :: "string \<Rightarrow> rat" where
  "frac_value ds = of_nat (parseInt ds) / 10 ^ length ds"

definition parseFloat :: "string \<Rightarrow> rat option" where
  "parseFloat s =
     (let ip = takeWhile is_digit s; r = dropWhile is_digit s;
          fp = (case r of [] \<Rightarrow> [] | c # cs \<Rightarrow> if c = CHR ''.'' then takeWhile is_digit cs else [])
      in if ip = [] \<and> fp = [] then None
         else Some (to_double (of_nat (parseInt ip) + frac_value fp)))"

subsection \<open>Cells of a spreadsheet row\<close>

text \<open>A row of \<^verbatim>\<open>XLSX.utils.sheet_to_json\<close> maps column names to cell values; a cell
  holds a string or a number. A column that is absent, \<^verbatim>\<open>undefined\<close> or \<^verbatim>\<open>null\<close>
  is \<^term>\<open>None\<close>.\<close>

datatype cell = Str string | Num rat

type_synonym row = "string \<Rightarrow> cell option"

text \<open>JavaScript truthiness of a cell: the empty string and \<open>0\<close> are falsy.\<close>

fun truthy :: "cell \<Rightarrow> bool" where
  "truthy (Str s) = (s \<noteq> [])"
| "truthy (Num n) = (n \<noteq> 0)"

text \<open>\<^verbatim>\<open>String(v)\<close>.\<close>

fun String :: "cell \<Rightarrow> string" where
  "String (Str s) = s"
| "String (Num n) = number_toString n"

subsection \<open>Regular expressions with backtracking\<close>

text \<open>The patterns of the program are sequences of one-character steps, capture groups
  and one optional group. The matcher tries the alternatives in the order of a backtracking
  engine: a greedy step takes a character first, a lazy step takes none first.\<close>

datatype cclass = Digit | Space | AnyChar | Lit char | LitCI char

fun in_class :: "cclass \<Rightarrow> char \<Rightarrow> bool" where
  "in_class Digit c = is_digit c"
| "in_class Space c = is_space c"
| "in_class AnyChar c = (\<not> is_line_terminator c)"
| "in_class (Lit l) c = (c = l)"
| "in_class (LitCI l) c = (to_lower c = to_lower l)"

datatype step =
    One cclass
  | Opt cclass
  | Star cclass
  | Plus cclass
  | LazyStar cclass
  | GOpen
  | GClose
  | Eoi

datatype atom = Step step | OptSeq "step list"

fun atom_size :: "atom \<Rightarrow> nat" where
  "atom_size (Step x) = 1"
| "atom_size (OptSeq xs) = Suc (length xs)"

definition atoms_size :: "atom list \<Rightarrow> nat" where
  "atoms_size as = sum_list (map atom_size as)"

text \<open>\<open>rmatch as s opens caps\<close> matches the atoms at the start of \<open>s\<close>; \<open>opens\<close> holds the
  input at each capture group that is open, \<open>caps\<close> the texts of the groups closed so far.
  The result is the captures and the input left after the match.\<close>

function rmatch :: "atom list \<Rightarrow> string \<Rightarrow> string list \<Rightarrow> string list \<Rightarrow> (string list \<times> string) option" where
  "rmatch [] s opens caps = Some (caps, s)"
| "rmatch (Step (One c) # as) s opens caps =
     (case s of [] \<Rightarrow> None
      | x # xs \<Rightarrow> if in_class c x then rmatch as xs opens caps else None)"
| "rmatch (Step (Opt c) # as) s opens caps =
     (case s of [] \<Rightarrow> rmatch as s opens caps
      | x # xs \<Rightarrow>
          if in_class c x
          then (case rmatch as xs opens caps of
                  Some r \<Rightarrow> Some r
                | None \<Rightarrow> rmatch as s opens caps)
          else rmatch as s opens caps)"
| "rmatch (Step (Star c) # as) s opens caps =
     (case s of [] \<Rightarrow> rmatch as s opens caps
      | x # xs \<Rightarrow>
          if in_class c x
          then (case rmatch (Step (Star c) # as) xs opens caps of
                  Some r \<Rightarrow> Some r
                | None \<Rightarrow> rmatch as s opens caps)
          else rmatch as s opens caps)"
| "rmatch (Step (Plus c) # as) s opens caps =
     (case s of [] \<Rightarrow> None
      | x # xs \<Rightarrow> if in_class c x then rmatch (Step (Star c) # as) xs opens caps else None)"
| "rmatch (Step (LazyStar c) # as) s opens caps =
     (case rmatch as s opens caps of
        Some r \<Rightarrow> Some r
      | None \<Rightarrow>
          (case s of [] \<Rightarrow> None
           | x # xs \<Rightarrow>
               if in_class c x then rmatch (Step (LazyStar c) # as) xs opens caps else None))"
| "rmatch (Step GOpen # as) s opens caps = rmatch as s (s # opens) caps"
| "rmatch (Step GClose # as) s opens caps =
     (case opens of
        [] \<Rightarrow> rmatch as s [] caps
      | s0 # os \<Rightarrow> rmatch as s os (caps @ [take (length s0 - length s) s0]))"
| "rmatch (Step Eoi # as) s opens caps = (if s = [] then rmatch as s opens caps else None)"
| "rmatch (OptSeq bs # as) s opens caps =
     (case rmatch (map Step bs @ as) s opens caps of
        Some r \<Rightarrow> Some r
      | None \<Rightarrow> rmatch as s opens caps)"
  by pat_completeness auto
termination
  by (relation "measures [\<lambda>(as, s, opens, caps). atoms_size as, \<lambda>(as, s, opens, caps). length s]")
     (auto simp: atoms_size_def comp_def sum_list_triv)

text \<open>The search of \<^verbatim>\<open>String.prototype.match\<close> and \<^verbatim>\<open>replace\<close> without the
  \<^verbatim>\<open>g\<close> flag: the leftmost start at which the pattern matches. The result is the text
  before the match, the captures and the text after the match.\<close>

fun rsearch :: "atom list \<Rightarrow> string \<Rightarrow> string \<Rightarrow> (string \<times> string list \<times> string) option" where
  "rsearch as pre [] =
     (case rmatch as [] [] [] of
        Some (caps, rest) \<Rightarrow> Some (pre, caps, rest)
      | None \<Rightarrow> None)"
| "rsearch as pre (x # xs) =
     (case rmatch as (x # xs) [] [] of
        Some (caps, rest) \<Rightarrow> Some (pre, caps, rest)
      | None \<Rightarrow> rsearch as (pre @ [x]) xs)"

text \<open>\<^verbatim>\<open>str.match(re)\<close>: the captured groups, or \<^term>\<open>None\<close> for \<^verbatim>\<open>null\<close>.\<close>

definition match :: "atom list \<Rightarrow> string \<Rightarrow> string list option" where
  "match re s = (case rsearch re [] s of None \<Rightarrow> None | Some (pre, caps, rest) \<Rightarrow> Some caps)"

text \<open>\<^verbatim>\<open>str.replace(re, '')\<close>: the first match is cut out.\<close>

definition replace_empty :: "atom list \<Rightarrow> string \<Rightarrow> string" where
  "replace_empty re s = (case rsearch re [] s of None \<Rightarrow> s | Some (pre, caps, rest) \<Rightarrow> pre @ rest)"

definition lit :: "string \<Rightarrow> atom list" where
  "lit s = map (\<lambda>c. Step (One (Lit c))) s"

definition lit_ci :: "string \<Rightarrow> atom list" where
  "lit_ci s = map (\<lambda>c. Step (One (LitCI c))) s"

definition group :: "atom list \<Rightarrow> atom list" where
  "group as = Step GOpen # as @ [Step GClose]"

subsection \<open>Field parsers\<close>

text \<open>\<^verbatim>\<open>/(\d+)\s*hrs?.*?(\d+)\s*mins?/\<close>\<close>

definition re_hm :: "atom list" where
  "re_hm = group [Step (Plus Digit)] @ [Step (Star Space)] @ lit ''hr'' @ [Step (Opt (Lit CHR ''s'')),
     Step (LazyStar AnyChar)] @ group [Step (Plus Digit)] @ [Step (Star Space)] @ lit ''min'' @
     [Step (Opt (Lit CHR ''s''))]"

text \<open>\<^verbatim>\<open>/(\d+):(\d+)(?::(\d+))?/\<close>\<close>

definition re_time :: "atom list" where
  "re_time = group [Step (Plus Digit)] @ lit '':'' @ group [Step (Plus Digit)] @
     [OptSeq [One (Lit CHR '':''), GOpen, Plus Digit, GClose]]"

text \<open>\<^verbatim>\<open>/(\d+)\s*mins?/\<close>\<close>

definition re_mins :: "atom list" where
  "re_mins = group [Step (Plus Digit)] @ [Step (Star Space)] @ lit ''min'' @ [Step (Opt (Lit CHR ''s''))]"

text \<open>\<^verbatim>\<open>/(\d+)\s*hrs?/\<close>\<close>

definition re_hrs :: "atom list" where
  "re_hrs = group [Step (Plus Digit)] @ [Step (Star Space)] @ lit ''hr'' @ [Step (Opt (Lit CHR ''s''))]"

definition parseDuration :: "cell option \<Rightarrow> nat option" where
  "parseDuration duration =
     (case duration of
        None \<Rightarrow> None
      | Some d \<Rightarrow>
          if \<not> truthy d then None
          else
            let str = toLowerCase (String d) in
            (case match re_hm str of
               Some hm \<Rightarrow> Some (parseInt (hm ! 0) * 60 + parseInt (hm ! 1))
             | None \<Rightarrow>
            (case match re_time str of
               Some time \<Rightarrow> Some (parseInt (time ! 0) * 60 + parseInt (time ! 1))
             | None \<Rightarrow>
            (case match re_mins str of
               Some mins \<Rightarrow> Some (parseInt (mins ! 0))
             | None \<Rightarrow>
            (case match re_hrs str of
               Some hrs \<Rightarrow> Some (parseInt (hrs ! 0) * 60)
             | None \<Rightarrow> None)))))"

text \<open>\<^verbatim>\<open>/(\d+(?:\.\d+)?)/\<close>\<close>

definition re_position :: "atom list" where
  "re_position = group [Step (Plus Digit), OptSeq [One (Lit CHR ''.''), Plus Digit]]"

text \<open>The captured text starts with a digit, so \<^verbatim>\<open>parseFloat\<close> never gives
  \<^verbatim>\<open>NaN\<close> here.\<close>

definition parseSeriesPosition :: "cell option \<Rightarrow> rat option" where
  "parseSeriesPosition position =
     (case position of
        None \<Rightarrow> None
      | Some p \<Rightarrow>
          if \<not> truthy p then None
          else (case match re_position (String p) of
                  Some m \<Rightarrow> parseFloat (m ! 0)
                | None \<Rightarrow> None))"

text \<open>\<^verbatim>\<open>/[^\d.]/g\<close> replaced by the empty string keeps the digits and the dots.\<close>

definition parseRating :: "cell option \<Rightarrow> rat option" where
  "parseRating rating =
     (case rating of
        None \<Rightarrow> None
      | Some r \<Rightarrow>
          if \<not> truthy r then None
          else parseFloat (filter (\<lambda>c. is_digit c \<or> c = CHR ''.'') (String r)))"

text \<open>\<^verbatim>\<open>parseDate\<close> relies on the \<^verbatim>\<open>Date\<close> constructor of the JavaScript runtime,
  whose parsing of free text is left to the implementation. The parameter \<open>toISODate\<close>
  stands for it: \<open>toISODate v\<close> is \<^term>\<open>None\<close> when \<^verbatim>\<open>new Date(v)\<close> has the time
  value \<^verbatim>\<open>NaN\<close>, and otherwise the part of \<^verbatim>\<open>toISOString()\<close> before the \<^verbatim>\<open>T\<close>.\<close>

definition parseDate :: "(cell \<Rightarrow> string option) \<Rightarrow> cell option \<Rightarrow> string option" where
  "parseDate toISODate dateStr =
     (case dateStr of
        None \<Rightarrow> None
      | Some d \<Rightarrow> if \<not> truthy d then None else toISODate d)"

datatype error = TypeError

text \<open>\<^verbatim>\<open>/,?\s*Book\s+\d+.*$/i\<close>, \<^verbatim>\<open>/,?\s*#\d+.*$/i\<close>,
  \<^verbatim>\<open>/,?\s*Volume\s+\d+.*$/i\<close>, \<^verbatim>\<open>/,?\s*Part\s+\d+.*$/i\<close>\<close>

definition re_keyword :: "string \<Rightarrow> atom list" where
  "re_keyword kw = [Step (Opt (Lit CHR '','')), Step (Star Space)] @ lit_ci kw @
     [Step (Plus Space), Step (Plus Digit), Step (Star AnyChar), Step Eoi]"

definition re_hash :: "atom list" where
  "re_hash = [Step (Opt (Lit CHR '','')), Step (Star Space)] @ lit_ci ''#'' @
     [Step (Plus Digit), Step (Star AnyChar), Step Eoi]"

text \<open>\<^verbatim>\<open>series.trim()\<close> on a number that is not \<open>0\<close> throws a \<^verbatim>\<open>TypeError\<close>:
  a number has no method \<^verbatim>\<open>trim\<close>.\<close>

definition cleanSeriesName :: "cell option \<Rightarrow> error + string option" where
  "cleanSeriesName series =
     (case series of
        None \<Rightarrow> Inr None
      | Some (Num n) \<Rightarrow> if n = 0 then Inr None else Inl TypeError
      | Some (Str s) \<Rightarrow>
          if s = [] \<or> trim s = [] then Inr None
          else Inr (Some (trim (replace_empty (re_keyword ''Part'')
                               (replace_empty (re_keyword ''Volume'')
                               (replace_empty re_hash
                               (replace_empty (re_keyword ''Book'') s)))))))"

subsection \<open>The audiobook record\<close>

text \<open>The fields that the TypeScript interface \<^verbatim>\<open>Audiobook\<close> and the object literals
  of the JavaScript class share. The text fields hold the cell as it was read, since the
  program passes it on unconverted.\<close>

record BookData =
  asin :: "cell option"
  title :: cell
  series_name :: "string option"
  series_position :: "rat option"
  author :: "cell option"
  narrator :: "cell option"
  owned :: bool
  listened :: bool
  release_date :: "string option"
  purchase_date :: "string option"
  rating :: "rat option"
  length_minutes :: "nat option"

text \<open>The interface \<^verbatim>\<open>Audiobook\<close> of \<^verbatim>\<open>types/index.ts\<close>; \<open>book_id\<close> is its field
  \<^verbatim>\<open>id\<close>.\<close>

record Audiobook = BookData +
  book_id :: nat

text \<open>The object of \<^verbatim>\<open>EnhancedAudibleManager\<close>, which has \<^verbatim>\<open>categories\<close> and no
  \<^verbatim>\<open>id\<close>.\<close>

record EnhancedBook = BookData +
  categories :: "cell option"

subsection \<open>normalizeLibationData\<close>

text \<open>The inner loop over \<^verbatim>\<open>possibleNames\<close>: the first alias whose cell is neither
  \<^verbatim>\<open>undefined\<close>, \<^verbatim>\<open>null\<close> nor the empty string.\<close>

fun find_value :: "row \<Rightarrow> string list \<Rightarrow> cell option" where
  "find_value r [] = None"
| "find_value r (name # names) =
     (case r name of
        None \<Rightarrow> find_value r names
      | Some v \<Rightarrow> if v \<noteq> Str [] then Some v else find_value r names)"

definition asin_columns :: "string list" where
  "asin_columns = [''ASIN'', ''asin'', ''Asin'']"

definition title_columns :: "string list" where
  "title_columns = [''Title'', ''title'', ''BookTitle'', ''Product Name'']"

definition author_columns :: "string list" where
  "author_columns = [''Author'', ''author'', ''Authors'', ''By'']"

definition narrator_columns :: "string list" where
  "narrator_columns = [''Narrator'', ''narrator'', ''Narrated By'']"

definition series_columns :: "string list" where
  "series_columns = [''Series'', ''series'', ''Series Name'']"

definition seriesPosition_columns :: "string list" where
  "seriesPosition_columns = [''Series Position'', ''Book #'', ''Book'', ''#'']"

definition releaseDate_columns :: "string list" where
  "releaseDate_columns = [''Release Date'', ''Publication Date'', ''Date Added'']"

definition purchaseDate_columns :: "string list" where
  "purchaseDate_columns = [''Purchase Date'', ''Date Purchased'', ''Added'']"

definition length_columns :: "string list" where
  "length_columns = [''Length'', ''Duration'', ''Runtime'']"

definition rating_columns :: "string list" where
  "rating_columns = [''Rating'', ''My Rating'', ''Overall Rating'']"

definition categories_columns :: "string list" where
  "categories_columns = [''Categories'', ''Genre'', ''Genres'']"

text \<open>\<^verbatim>\<open>v || undefined\<close> and \<^verbatim>\<open>v || d\<close>.\<close>

definition or_undefined :: "cell option \<Rightarrow> cell option" where
  "or_undefined v = (case v of None \<Rightarrow> None | Some c \<Rightarrow> if truthy c then Some c else None)"

definition or_default :: "cell option \<Rightarrow> string \<Rightarrow> cell" where
  "or_default v d = (case v of None \<Rightarrow> Str d | Some c \<Rightarrow> if truthy c then c else Str d)"

text \<open>\<^verbatim>\<open>AudibleManager.normalizeLibationData\<close> (TypeScript).\<close>

definition normalizeLibationData :: "(cell \<Rightarrow> string option) \<Rightarrow> row \<Rightarrow> error + Audiobook" where
  "normalizeLibationData toISODate r =
     (case cleanSeriesName (find_value r series_columns) of
        Inl e \<Rightarrow> Inl e
      | Inr sn \<Rightarrow>
          Inr \<lparr> asin = or_undefined (find_value r asin_columns),
                title = or_default (find_value r title_columns) ''Unknown Title'',
                series_name = sn,
                series_position = parseSeriesPosition (find_value r seriesPosition_columns),
                author = or_undefined (find_value r author_columns),
                narrator = or_undefined (find_value r narrator_columns),
                owned = True,
                listened = False,
                release_date = parseDate toISODate (find_value r releaseDate_columns),
                purchase_date = parseDate toISODate (find_value r purchaseDate_columns),
                rating = parseRating (find_value r rating_columns),
                length_minutes = parseDuration (find_value r length_columns),
                book_id = 0 \<rparr>)"

text \<open>\<^verbatim>\<open>EnhancedAudibleManager.normalizeLibationData\<close> (JavaScript): the author has a
  default, and the categories are kept.\<close>

definition normalizeLibationData_enhanced :: "(cell \<Rightarrow> string option) \<Rightarrow> row \<Rightarrow> error + EnhancedBook" where
  "normalizeLibationData_enhanced toISODate r =
     (case cleanSeriesName (find_value r series_columns) of
        Inl e \<Rightarrow> Inl e
      | Inr sn \<Rightarrow>
          Inr \<lparr> asin = or_undefined (find_value r asin_columns),
                title = or_default (find_value r title_columns) ''Unknown Title'',
                series_name = sn,
                series_position = parseSeriesPosition (find_value r seriesPosition_columns),
                author = Some (or_default (find_value r author_columns) ''Unknown Author''),
                narrator = or_undefined (find_value r narrator_columns),
                owned = True,
                listened = False,
                release_date = parseDate toISODate (find_value r releaseDate_columns),
                purchase_date = parseDate toISODate (find_value r purchaseDate_columns),
                rating = parseRating (find_value r rating_columns),
                length_minutes = parseDuration (find_value r length_columns),
                categories = or_undefined (find_value r categories_columns) \<rparr>)"

subsection \<open>The audiobooks table\<close>

text \<open>The table \<^verbatim>\<open>audiobooks\<close> of \<^verbatim>\<open>Database.init\<close>: \<^verbatim>\<open>id INTEGER PRIMARY KEY
  AUTOINCREMENT\<close> and \<^verbatim>\<open>asin TEXT UNIQUE\<close>; no other column is unique. The rows are kept
  in the order of their insertion; \<open>sequence\<close> is the largest id that was ever given out.
  Values are stored as they are bound: the conversions of SQLite's column affinity are not
  modelled.\<close>

record database =
  rows :: "Audiobook list"
  sequence :: nat

definition empty_database :: database where
  "empty_database = \<lparr> rows = [], sequence = 0 \<rparr>"

text \<open>The id that \<^verbatim>\<open>AUTOINCREMENT\<close> gives to a new row: one more than the largest id
  that ever existed in the table.\<close>

definition next_id :: "database \<Rightarrow> nat" where
  "next_id db = Suc (fold max (map book_id (rows db)) (sequence db))"

text \<open>A stored row is in conflict with a new row when both have the same \<^verbatim>\<open>asin\<close>
  that is not \<^verbatim>\<open>NULL\<close>: in a \<^verbatim>\<open>UNIQUE\<close> column every \<^verbatim>\<open>NULL\<close> is distinct
  from every other value. Two cells are the same asin when they are equal: a number and
  the text of its digits, which the \<^verbatim>\<open>TEXT\<close> column would store alike, are distinct
  here.\<close>

definition conflicts :: "Audiobook \<Rightarrow> Audiobook \<Rightarrow> bool" where
  "conflicts new old = (asin new \<noteq> None \<and> asin old = asin new)"

text \<open>\<^verbatim>\<open>INSERT OR REPLACE INTO audiobooks (...)\<close>: the rows in conflict are deleted, the
  new row is inserted under a new id. The result is the table and \<^verbatim>\<open>lastID\<close>.\<close>

definition upsertAudiobook :: "database \<Rightarrow> Audiobook \<Rightarrow> database \<times> nat" where
  "upsertAudiobook db bookData =
     (let i = next_id db in
      (\<lparr> rows = filter (\<lambda>old. \<not> conflicts bookData old) (rows db) @ [bookData\<lparr>book_id := i\<rparr>],
         sequence = i \<rparr>, i))"

text \<open>\<^verbatim>\<open>SELECT COUNT(*) as count FROM audiobooks WHERE owned = 0\<close>\<close>

definition getMissingBooksCount :: "database \<Rightarrow> nat" where
  "getMissingBooksCount db = length (filter (\<lambda>b. \<not> owned b) (rows db))"

text \<open>\<^verbatim>\<open>UPDATE audiobooks SET listened = 1 ... WHERE id = ?\<close>; the result tells whether a
  row was changed.\<close>

definition markAsListened :: "database \<Rightarrow> nat \<Rightarrow> database \<times> bool" where
  "markAsListened db bookId =
     (db\<lparr>rows := map (\<lambda>b. if book_id b = bookId then b\<lparr>listened := True\<rparr> else b) (rows db)\<rparr>,
      \<exists>b \<in> set (rows db). book_id b = bookId)"

subsection \<open>Series reconciliation\<close>

text \<open>The object that \<^verbatim>\<open>addMissingBookPlaceholder\<close> hands to \<^verbatim>\<open>upsertAudiobook\<close>.\<close>

definition placeholder :: "string \<Rightarrow> rat \<Rightarrow> cell option \<Rightarrow> Audiobook" where
  "placeholder seriesName position auth =
     \<lparr> asin = None,
       title = Str (seriesName @ '' Book '' @ number_toString position),
       series_name = Some seriesName,
       series_position = Some position,
       author = auth,
       narrator = None,
       owned = False,
       listened = False,
       release_date = None,
       purchase_date = None,
       rating = None,
       length_minutes = None,
       book_id = 0 \<rparr>"

text \<open>The same object in \<^verbatim>\<open>EnhancedAudibleManager.addMissingBookPlaceholder\<close>.\<close>

definition placeholder_enhanced :: "string \<Rightarrow> rat \<Rightarrow> cell option \<Rightarrow> EnhancedBook" where
  "placeholder_enhanced seriesName position auth =
     \<lparr> asin = None,
       title = Str (seriesName @ '' Book '' @ number_toString position),
       series_name = Some seriesName,
       series_position = Some position,
       author = auth,
       narrator = None,
       owned = False,
       listened = False,
       release_date = None,
       purchase_date = None,
       rating = None,
       length_minutes = None,
       categories = None \<rparr>"

text \<open>The upsert of the model cannot fail, so the \<^verbatim>\<open>catch\<close> branch is never taken.\<close>

definition addMissingBookPlaceholder :: "database \<Rightarrow> string \<Rightarrow> rat \<Rightarrow> cell option \<Rightarrow> database" where
  "addMissingBookPlaceholder db seriesName position auth =
     fst (upsertAudiobook db (placeholder seriesName position auth))"

text \<open>\<^verbatim>\<open>for (let pos = start; pos < bound; pos++)\<close>: the values of \<open>pos\<close> for which the
  body runs. The steps and the comparison are exact; they are those of the program when
  \<open>start\<close> and \<open>bound\<close> are exact in double precision.\<close>

function gap_positions :: "rat \<Rightarrow> rat \<Rightarrow> rat list" where
  "gap_positions pos bound = (if pos < bound then pos # gap_positions (pos + 1) bound else [])"
  by pat_completeness auto
termination
  by (relation "measure (\<lambda>(pos, bound). nat \<lceil>bound - pos\<rceil>)") (auto, linarith)

declare gap_positions.simps [simp del]

text \<open>The loop over \<open>i\<close>: for each adjacent pair \<open>current\<close>, \<open>next\<close> of the sorted
  positions with \<open>next - current > 1\<close>, the positions from \<open>current + 1\<close> below \<open>next\<close>.
  The difference is exact, as the program's is for positions that are exact in double
  precision.\<close>

fun interior_gaps :: "rat list \<Rightarrow> rat list" where
  "interior_gaps (current # next # rest) =
     (if next - current > 1 then gap_positions (current + 1) next else []) @
     interior_gaps (next # rest)"
| "interior_gaps [current] = []"
| "interior_gaps [] = []"

text \<open>The check for books before the first one.\<close>

definition leading_gap :: "rat \<Rightarrow> rat list" where
  "leading_gap firstPos = (if firstPos > 1 then gap_positions 1 firstPos else [])"

definition positioned :: "Audiobook list \<Rightarrow> Audiobook list" where
  "positioned books = filter (\<lambda>book. series_position book \<noteq> None) books"

text \<open>\<^verbatim>\<open>(a.series_position || 0)\<close>, the key of the stable sort. The comparator's
  difference of two doubles has the sign of their exact difference, so the order is that
  of the keys.\<close>

definition position_key :: "Audiobook \<Rightarrow> rat" where
  "position_key book = (case series_position book of None \<Rightarrow> 0 | Some p \<Rightarrow> p)"

definition sortedBooks :: "Audiobook list \<Rightarrow> Audiobook list" where
  "sortedBooks books = sort_key position_key (positioned books)"

text \<open>The body of the loop over the series groups: the positions for which
  \<^verbatim>\<open>addMissingBookPlaceholder\<close> is called, in the order of the calls.\<close>

definition missing_positions :: "Audiobook list \<Rightarrow> rat list" where
  "missing_positions books =
     (if length books < 2 then []
      else if length (sortedBooks books) < 2 then []
      else interior_gaps (map (\<lambda>b. the (series_position b)) (sortedBooks books)) @
           leading_gap (the (series_position (sortedBooks books ! 0))))"

text \<open>The placeholders of one series group; the author is that of \<^verbatim>\<open>books[0]\<close>.\<close>

definition series_placeholders :: "string \<Rightarrow> Audiobook list \<Rightarrow> Audiobook list" where
  "series_placeholders seriesName books =
     map (\<lambda>pos. placeholder seriesName pos (author (books ! 0))) (missing_positions books)"

type_synonym seriesMap = "(string \<times> Audiobook list) list"

definition detectMissingSeriesBooks :: "database \<Rightarrow> seriesMap \<Rightarrow> database" where
  "detectMissingSeriesBooks db sm =
     foldl (\<lambda>db (seriesName, books).
              foldl (\<lambda>db pos. addMissingBookPlaceholder db seriesName pos (author (books ! 0)))
                    db (missing_positions books))
           db sm"

subsection \<open>The gap loops in double precision\<close>

text \<open>The same loops with the program's arithmetic: \<^verbatim>\<open>pos++\<close>, \<^verbatim>\<open>current + 1\<close> and
  \<^verbatim>\<open>next - current\<close> round their result to a double. A step that rounds back to the same
  number would repeat for ever, so the result is optional: \<^term>\<open>None\<close> is a loop that
  does not end. On exact positions these loops and the ones above give the same
  placeholders (\<open>missing_positions_double_exact\<close> below).\<close>

partial_function (option) gap_positions_double :: "rat \<Rightarrow> rat \<Rightarrow> rat list option" where
  "gap_positions_double pos bound =
     (if pos < bound
      then Option.bind (gap_positions_double (to_double (pos + 1)) bound) (\<lambda>rest. Some (pos # rest))
      else Some [])"

declare gap_positions_double.simps [code]

fun interior_gaps_double :: "rat list \<Rightarrow> rat list option" where
  "interior_gaps_double (current # next # rest) =
     Option.bind
       (if 1 < to_double (next - current)
        then gap_positions_double (to_double (current + 1)) next else Some [])
       (\<lambda>gap. Option.bind (interior_gaps_double (next # rest)) (\<lambda>gaps. Some (gap @ gaps)))"
| "interior_gaps_double [current] = Some []"
| "interior_gaps_double [] = Some []"

definition leading_gap_double :: "rat \<Rightarrow> rat list option" where
  "leading_gap_double firstPos = (if 1 < firstPos then gap_positions_double 1 firstPos else Some [])"

definition missing_positions_double :: "Audiobook list \<Rightarrow> rat list option" where
  "missing_positions_double books =
     (if length books < 2 then Some []
      else if length (sortedBooks books) < 2 then Some []
      else Option.bind
             (interior_gaps_double (map (\<lambda>b. the (series_position b)) (sortedBooks books)))
             (\<lambda>interior. Option.bind
                (leading_gap_double (the (series_position (sortedBooks books ! 0))))
                (\<lambda>leading. Some (interior @ leading))))"

subsection \<open>parseLibationExport\<close>

text \<open>\<^verbatim>\<open>seriesMap.get(name).push(book)\<close>, after \<^verbatim>\<open>seriesMap.set(name, [])\<close> when the
  name is new. A \<^verbatim>\<open>Map\<close> keeps its keys in the order of their insertion.\<close>

definition track_series :: "seriesMap \<Rightarrow> string \<Rightarrow> Audiobook \<Rightarrow> seriesMap" where
  "track_series sm name book =
     (if name \<in> set (map fst sm)
      then map (\<lambda>(k, books). if k = name then (k, books @ [book]) else (k, books)) sm
      else sm @ [(name, [book])])"

text \<open>The first loop: each row is normalized; a row that throws ends the ingestion.\<close>

fun normalize_rows :: "(cell \<Rightarrow> string option) \<Rightarrow> row list \<Rightarrow> Audiobook list \<Rightarrow> seriesMap \<Rightarrow>
    error + (Audiobook list \<times> seriesMap)" where
  "normalize_rows toISODate [] processedBooks sm = Inr (processedBooks, sm)"
| "normalize_rows toISODate (r # data) processedBooks sm =
     (case normalizeLibationData toISODate r of
        Inl e \<Rightarrow> Inl e
      | Inr book \<Rightarrow>
          normalize_rows toISODate data (processedBooks @ [book])
            (case series_name book of
               None \<Rightarrow> sm
             | Some name \<Rightarrow> if name \<noteq> [] then track_series sm name book else sm))"

record summary =
  processed :: nat
  series :: nat
  missingBooksFound :: nat

text \<open>The argument \<open>data\<close> is the list of rows that \<^verbatim>\<open>XLSX.utils.sheet_to_json\<close> reads
  from the first sheet of the file.\<close>

definition parseLibationExport :: "(cell \<Rightarrow> string option) \<Rightarrow> database \<Rightarrow> row list \<Rightarrow>
    error + (database \<times> summary)" where
  "parseLibationExport toISODate db data =
     (case normalize_rows toISODate data [] [] of
        Inl e \<Rightarrow> Inl e
      | Inr (processedBooks, sm) \<Rightarrow>
          let db1 = foldl (\<lambda>db book. fst (upsertAudiobook db book)) db processedBooks;
              db2 = detectMissingSeriesBooks db1 sm
          in Inr (db2, \<lparr> processed = length processedBooks,
                         series = length sm,
                         missingBooksFound = getMissingBooksCount db2 \<rparr>))"

subsection \<open>The priority order of the duration patterns, as the specification words it\<close>



subsection \<open>Notions of the claims\<close>

text \<open>The positions of the records of a group that have one, in the order of the group,
  and in the sorted order that the gap analysis walks through.\<close>

definition known_positions :: "Audiobook list \<Rightarrow> rat list" where
  "known_positions books = map (\<lambda>b. the (series_position b)) (positioned books)"

definition sorted_positions :: "Audiobook list \<Rightarrow> rat list" where
  "sorted_positions books = map (\<lambda>b. the (series_position b)) (sortedBooks books)"



text \<open>What a stored row shows of a placeholder.\<close>

definition placeholder_view :: "Audiobook \<Rightarrow> cell \<times> rat option \<times> bool" where
  "placeholder_view b = (title b, series_position b, owned b)"


text \<open>Two ingestions of the same rows, one after the other.\<close>

definition ingest_twice :: "(cell \<Rightarrow> string option) \<Rightarrow> database \<Rightarrow> row list \<Rightarrow>
    error + (database \<times> summary)" where
  "ingest_twice toISODate db data =
     (case parseLibationExport toISODate db data of
        Inl e \<Rightarrow> Inl e
      | Inr (db1, s1) \<Rightarrow> parseLibationExport toISODate db1 data)"

text \<open>What a stored row shows of itself apart from its id.\<close>

definition row_view :: "Audiobook \<Rightarrow> cell option \<times> cell \<times> string option \<times> rat option \<times> bool \<times> bool" where
  "row_view b = (asin b, title b, series_name b, series_position b, owned b, listened b)"

text \<open>What an ingestion leaves: the stored rows without their ids, and the count it
  reports.\<close>

definition outcome :: "error + (database \<times> summary) \<Rightarrow>
    error + ((cell option \<times> cell \<times> string option \<times> rat option \<times> bool \<times> bool) list \<times> nat)" where
  "outcome res =
     (case res of
        Inl e \<Rightarrow> Inl e
      | Inr (db, s) \<Rightarrow> Inr (map row_view (rows db), missingBooksFound s))"

text \<open>The id and the listened flag of the rows stored under an asin.\<close>

definition stored_under :: "cell \<Rightarrow> database \<Rightarrow> (nat \<times> bool) list" where
  "stored_under a db =
     map (\<lambda>b. (book_id b, listened b)) (filter (\<lambda>b. asin b = Some a) (rows db))"

subsection \<open>Example inputs\<close>

text \<open>A \<^verbatim>\<open>Date\<close> constructor that reads no text as a date.\<close>

definition no_dates :: "cell \<Rightarrow> string option" where
  "no_dates v = None"


text \<open>The first row of the scenario below once it has been stored under the id 1 and
  marked as listened.\<close>

definition listened_row :: Audiobook where
  "listened_row =
     \<lparr> asin = Some (Str ''B001''), title = Str ''Foo B001'', series_name = Some ''Foo'',
       series_position = Some 1, author = Some (Str ''Ann Author''), narrator = None,
       owned = True, listened = True, release_date = None, purchase_date = None,
       rating = None, length_minutes = None, book_id = 1 \<rparr>"


definition unknown_book_enhanced :: EnhancedBook where
  "unknown_book_enhanced =
     \<lparr> asin = None, title = Str ''Unknown Title'', series_name = None,
       series_position = None, author = Some (Str ''Unknown Author''), narrator = None,
       owned = True, listened = False, release_date = None, purchase_date = None,
       rating = None, length_minutes = None, categories = None \<rparr>"




text \<open>A row whose only cell is the series, typed into the sheet as the number 1984.\<close>

definition numeric_series_row :: row where
  "numeric_series_row = map_of [(''Series'', Num 1984)]"

text \<open>An owned book of the series "Foo" at a given position, as normalization returns
  it.\<close>

definition book_at :: "rat \<Rightarrow> Audiobook" where
  "book_at p =
     \<lparr> asin = None, title = Str ''A Title'', series_name = Some ''Foo'',
       series_position = Some p, author = Some (Str ''Ann Author''), narrator = None,
       owned = True, listened = False, release_date = None, purchase_date = None,
       rating = None, length_minutes = None, book_id = 0 \<rparr>"

definition series_1_3_5 :: "Audiobook list" where
  "series_1_3_5 = [book_at 1, book_at 3, book_at 5]"


definition series_3_4 :: "Audiobook list" where
  "series_3_4 = [book_at 3, book_at 4]"

text \<open>Two books whose positions are the doubles of 1.14 and 2.14.\<close>

definition series_114_214 :: "Audiobook list" where
  "series_114_214 = [book_at (to_double (57 / 50)), book_at (to_double (107 / 50))]"

definition series_2 :: "Audiobook list" where
  "series_2 = [book_at 2]"

text \<open>The table of the scenario: three rows of the series "Foo" at the positions 1, 2
  and 4.\<close>

definition foo_row :: "string \<Rightarrow> rat \<Rightarrow> row" where
  "foo_row a p = map_of [(''ASIN'', Str a), (''Title'', Str (''Foo '' @ a)),
     (''Author'', Str ''Ann Author''), (''Series'', Str ''Foo''), (''Series Position'', Num p)]"

definition foo_table :: "row list" where
  "foo_table = [foo_row ''B001'' 1, foo_row ''B002'' 2, foo_row ''B004'' 4]"

text \<open>The table after the first ingestion of the scenario into an empty table.\<close>

definition foo_store :: database where
  "foo_store =
     \<lparr> rows =
         [(book_at 1)\<lparr>asin := Some (Str ''B001''), title := Str ''Foo B001'', book_id := 1\<rparr>,
          (book_at 2)\<lparr>asin := Some (Str ''B002''), title := Str ''Foo B002'', book_id := 2\<rparr>,
          (book_at 4)\<lparr>asin := Some (Str ''B004''), title := Str ''Foo B004'', book_id := 3\<rparr>,
          (placeholder ''Foo'' 3 (Some (Str ''Ann Author'')))\<lparr>book_id := 4\<rparr>],
       sequence = 4 \<rparr>"

section \<open>Properties\<close>

subsection \<open>Duration parsing\<close>



subsection \<open>Normalization\<close>

text \<open>C3. Normalization is claimed never to throw. On a row whose series cell is a number
  other than 0, \<^verbatim>\<open>cleanSeriesName\<close> calls \<^verbatim>\<open>trim\<close> on that number and the call
  throws a \<^verbatim>\<open>TypeError\<close>, in the TypeScript and in the JavaScript class alike; the other
  parsers convert their argument with \<^verbatim>\<open>String\<close> first. A row makes normalization
  throw exactly when the first non-empty series cell is such a number.\<close>

theorem normalize_numeric_series_throws:
  "normalizeLibationData toISODate numeric_series_row = Inl TypeError
   \<and> normalizeLibationData_enhanced toISODate numeric_series_row = Inl TypeError
   \<and> (normalizeLibationData toISODate r = Inl TypeError) =
       (\<exists>n. n \<noteq> 0 \<and> find_value r series_columns = Some (Num n))
   \<and> (normalizeLibationData_enhanced toISODate r = Inl TypeError) =
       (\<exists>n. n \<noteq> 0 \<and> find_value r series_columns = Some (Num n))"
proof (intro conjI)
  show "(normalizeLibationData toISODate r = Inl TypeError) =
       (\<exists>n. n \<noteq> 0 \<and> find_value r series_columns = Some (Num n))"
    by (auto simp: normalizeLibationData_def cleanSeriesName_def
        split: option.splits cell.splits sum.splits if_splits)
  show "(normalizeLibationData_enhanced toISODate r = Inl TypeError) =
       (\<exists>n. n \<noteq> 0 \<and> find_value r series_columns = Some (Num n))"
    by (auto simp: normalizeLibationData_enhanced_def cleanSeriesName_def
        split: option.splits cell.splits sum.splits if_splits)
qed (simp_all add: normalizeLibationData_def normalizeLibationData_enhanced_def cleanSeriesName_def
      series_columns_def numeric_series_row_def)

subsection \<open>Facts about the gap loops and the sorted positions\<close>

lemma set_gap_positions:
  "set (gap_positions pos bound) = {pos + of_nat k | k. pos + of_nat k < bound}"
proof (induction pos bound rule: gap_positions.induct)
  case (1 pos bound)
  show ?case
  proof (cases "pos < bound")
    case True
    have "{pos + of_nat k | k. pos + of_nat k < bound} =
          insert pos {pos + 1 + of_nat k | k. pos + 1 + of_nat k < bound}" (is "?L = ?R")
    proof (intro set_eqI iffI)
      fix x assume "x \<in> ?L"
      then obtain k where k: "x = pos + of_nat k" "pos + of_nat k < bound" by blast
      show "x \<in> ?R"
      proof (cases k)
        case 0 with k show ?thesis by simp
      next
        case (Suc j)
        with k have "x = pos + 1 + of_nat j" "pos + 1 + of_nat j < bound" by (simp_all add: algebra_simps)
        then show ?thesis by blast
      qed
    next
      fix x assume "x \<in> ?R"
      then consider "x = pos" | k where "x = pos + 1 + of_nat k" "pos + 1 + of_nat k < bound" by blast
      then show "x \<in> ?L"
      proof cases
        case 1
        with True have "x = pos + of_nat 0" "pos + of_nat 0 < bound" by simp_all
        then show ?thesis by blast
      next
        case 2
        then have "x = pos + of_nat (Suc k)" "pos + of_nat (Suc k) < bound" by (simp_all add: algebra_simps)
        then show ?thesis by blast
      qed
    qed
    with True 1 show ?thesis by (subst gap_positions.simps) simp
  next
    case False
    have "\<not> pos + of_nat k < bound" for k :: nat
    proof -
      have "0 \<le> (of_nat k :: rat)" by simp
      with False show ?thesis by linarith
    qed
    with False show ?thesis by (subst gap_positions.simps) simp
  qed
qed


lemma length_sortedBooks: "length (sortedBooks books) = length (positioned books)"
  by (simp add: sortedBooks_def)

lemma length_positioned_le: "length (positioned books) \<le> length books"
  by (simp add: positioned_def)

lemma position_key_positioned:
  "b \<in> set (positioned books) \<Longrightarrow> position_key b = the (series_position b)"
  by (auto simp: positioned_def position_key_def)

lemma sorted_positions_eq_keys:
  "sorted_positions books = map position_key (sortedBooks books)"
  unfolding sorted_positions_def
  by (rule map_cong) (auto simp: sortedBooks_def position_key_positioned)

lemma sorted_sorted_positions: "sorted (sorted_positions books)"
  by (simp add: sorted_positions_eq_keys sortedBooks_def)

lemma set_sorted_positions: "set (sorted_positions books) = set (known_positions books)"
  by (simp add: sorted_positions_def known_positions_def sortedBooks_def)

lemma length_sorted_positions: "length (sorted_positions books) = length (positioned books)"
  by (simp add: sorted_positions_def length_sortedBooks)

lemma missing_positions_eq:
  assumes "2 \<le> length (positioned books)"
  shows "missing_positions books =
         interior_gaps (sorted_positions books) @ leading_gap (sorted_positions books ! 0)"
proof -
  from assms length_positioned_le [of books] have "\<not> length books < 2" by linarith
  moreover from assms have "\<not> length (sortedBooks books) < 2" by (simp add: length_sortedBooks)
  moreover have "sorted_positions books ! 0 = the (series_position (sortedBooks books ! 0))"
  proof -
    from assms have "0 < length (positioned books)" by linarith
    then have "0 < length (sortedBooks books)" by (simp only: length_sortedBooks)
    then show ?thesis unfolding sorted_positions_def by (rule nth_map)
  qed
  ultimately show ?thesis by (simp add: missing_positions_def sorted_positions_def)
qed

lemma first_sorted_position_least:
  assumes "2 \<le> length (positioned books)"
    and "firstPos \<in> set (known_positions books)"
    and "\<forall>p \<in> set (known_positions books). firstPos \<le> p"
  shows "sorted_positions books ! 0 = firstPos"
proof -
  let ?ps = "sorted_positions books"
  from assms(1) have "0 < length (positioned books)" by linarith
  then have ne: "0 < length ?ps" by (simp only: length_sorted_positions)
  then have "?ps ! 0 \<in> set ?ps" by (rule nth_mem)
  with assms(3) have a: "firstPos \<le> ?ps ! 0" by (simp add: set_sorted_positions)
  from assms(2) obtain i where i: "i < length ?ps" "?ps ! i = firstPos"
    by (auto simp: set_sorted_positions [symmetric] in_set_conv_nth)
  from sorted_sorted_positions [of books] i(1) have "?ps ! 0 \<le> ?ps ! i"
    by (simp add: sorted_nth_mono)
  with i a show ?thesis by simp
qed

lemma set_leading_gap:
  "set (leading_gap firstPos) = {of_nat k | k. 1 \<le> k \<and> (of_nat k :: rat) < firstPos}"
proof (cases "1 < firstPos")
  case True
  have "{(1::rat) + of_nat k | k. 1 + of_nat k < firstPos} =
        {of_nat k | k. 1 \<le> k \<and> (of_nat k :: rat) < firstPos}" (is "?L = ?R")
  proof (intro set_eqI iffI)
    fix x assume "x \<in> ?L"
    then obtain k where "x = 1 + of_nat k" "1 + of_nat k < firstPos" by blast
    then have "x = of_nat (Suc k)" "1 \<le> Suc k" "(of_nat (Suc k) :: rat) < firstPos" by simp_all
    then show "x \<in> ?R" by blast
  next
    fix x assume "x \<in> ?R"
    then obtain k where k: "x = of_nat k" "1 \<le> k" "(of_nat k :: rat) < firstPos" by blast
    then obtain j where "k = Suc j" by (cases k) auto
    with k have "x = 1 + of_nat j" "1 + of_nat j < firstPos" by simp_all
    then show "x \<in> ?L" by blast
  qed
  with True show ?thesis by (simp add: leading_gap_def set_gap_positions)
next
  case False
  have "\<not> (1 \<le> k \<and> (of_nat k :: rat) < firstPos)" for k :: nat
  proof
    assume "1 \<le> k \<and> (of_nat k :: rat) < firstPos"
    then have "(1::rat) \<le> of_nat k" "(of_nat k :: rat) < firstPos" by simp_all
    with False show False by linarith
  qed
  with False show ?thesis by (simp add: leading_gap_def)
qed

lemma missing_positions_1_3_5: "missing_positions series_1_3_5 = [2, 4]" by code_simp
lemma missing_positions_3_4: "missing_positions series_3_4 = [1, 2]" by code_simp
lemma missing_positions_2: "missing_positions series_2 = []" by code_simp
lemma positioned_1_3_5: "length (positioned series_1_3_5) = 3" by code_simp

lemma placeholders_1_3_5:
  "map (\<lambda>p. (series_position p, owned p)) (series_placeholders ''Foo'' series_1_3_5) =
     [(Some 2, False), (Some 4, False)]"
  by (simp add: series_placeholders_def missing_positions_1_3_5 placeholder_def)

subsection \<open>Double precision where it is exact\<close>

lemma denominator_lower:
  assumes "0 < x"
  shows "2 powi (- snd (quotient_of x)) \<le> x"
proof -
  obtain a b where ab: "quotient_of x = (a, b)" by (cases "quotient_of x")
  then have b: "0 < b" by (rule quotient_of_denom_pos)
  from ab have x: "x = of_int a / of_int b" by (rule quotient_of_div)
  from assms b have "0 < a" by (simp add: x zero_less_divide_iff)
  then have a: "(1::rat) \<le> of_int a" by simp
  have "nat b < 2 ^ nat b" by (rule less_exp)
  then have "int (nat b) < int (2 ^ nat b)" by (simp only: of_nat_less_iff)
  with b have "b < 2 ^ nat b" by simp
  then have "(of_int b :: rat) < of_int (2 ^ nat b)" by (simp only: of_int_less_iff)
  then have le: "(of_int b :: rat) \<le> 2 ^ nat b" by simp
  have "2 powi (- b) = 1 / (2 ^ nat b :: rat)"
    using b by (simp add: power_int_def field_simps)
  also have "\<dots> \<le> 1 / of_int b"
    using b le by (simp add: frac_le)
  also have "\<dots> \<le> of_int a / of_int b"
    using a b by (simp add: divide_right_mono)
  finally have fin: "2 powi (- b) \<le> rat_of_int a / rat_of_int b" .
  have s: "snd (quotient_of x) = b" by (simp add: ab)
  show ?thesis unfolding s by (subst x) (rule fin)
qed

lemma exponent_from_lower: "0 < x \<Longrightarrow> 2 powi (exponent_from e x) \<le> x"
proof (induction e x rule: exponent_from.induct)
  case (1 e x)
  show ?case
  proof (cases "2 powi e \<le> x \<or> e \<le> - snd (quotient_of x)")
    case True
    then have r: "exponent_from e x = e" by (subst exponent_from.simps) simp
    from True show ?thesis
    proof
      assume "2 powi e \<le> x" then show ?thesis by (simp add: r)
    next
      assume "e \<le> - snd (quotient_of x)"
      then have "(2::rat) powi e \<le> 2 powi (- snd (quotient_of x))"
        by (intro power_int_increasing) simp_all
      also have "\<dots> \<le> x" using 1(2) by (rule denominator_lower)
      finally show ?thesis by (simp add: r)
    qed
  next
    case False
    then have "exponent_from e x = exponent_from (e - 1) x" by (subst exponent_from.simps) simp
    with 1(1) [OF False 1(2)] show ?thesis by simp
  qed
qed

lemma exponent_lower: "0 < x \<Longrightarrow> 2 powi (exponent x) \<le> x"
  by (simp add: exponent_def exponent_from_lower)

lemma round_half_even_of_int: "round_half_even (of_int m) = m"
  by (simp add: round_half_even_def)

lemma to_double_exact:
  assumes "x * 2 ^ j = of_int n" and "\<bar>n\<bar> < 2 ^ 53"
  shows "to_double x = x"
proof (cases "x = 0")
  case True
  then show ?thesis by (simp add: to_double_def)
next
  case False
  define e where "e = exponent \<bar>x\<bar>"
  from False have "0 < \<bar>x\<bar>" by simp
  then have low: "2 powi e \<le> \<bar>x\<bar>" unfolding e_def by (rule exponent_lower)
  have "\<bar>x * 2 ^ j\<bar> = \<bar>of_int n :: rat\<bar>" by (simp only: assms(1))
  then have "\<bar>x\<bar> * 2 ^ j = (of_int \<bar>n\<bar> :: rat)" by (simp add: abs_mult)
  also have "\<dots> < of_int (2 ^ 53)" using assms(2) by (simp only: of_int_less_iff)
  finally have up: "\<bar>x\<bar> * 2 ^ j < 2 ^ 53" by simp
  have "e + int j < 53"
  proof (rule ccontr)
    assume "\<not> e + int j < 53"
    then have "53 \<le> e + int j" by simp
    then have "(2::rat) powi 53 \<le> 2 powi (e + int j)"
      by (intro power_int_increasing) simp_all
    also have "\<dots> = 2 powi e * 2 ^ j" by (simp add: power_int_add)
    also have "\<dots> \<le> \<bar>x\<bar> * 2 ^ j" using low by (simp add: mult_right_mono)
    finally show False using up by simp
  qed
  then have "0 \<le> 52 - e - int j" by simp
  define k where "k = nat (52 - e - int j)"
  have k: "52 - e = int j + int k" using \<open>0 \<le> 52 - e - int j\<close> by (simp add: k_def)
  have "x / 2 powi (e - 52) = x * 2 powi (52 - e)"
    by (simp add: power_int_diff field_simps)
  also have "\<dots> = x * 2 ^ j * 2 ^ k"
    by (simp add: k power_int_add)
  also have "\<dots> = of_int (n * 2 ^ k)" by (simp add: assms(1))
  finally have q: "x / 2 powi (e - 52) = of_int (n * 2 ^ k)" .
  have "to_double x = of_int (round_half_even (x / 2 powi (e - 52))) * 2 powi (e - 52)"
    using False by (simp add: to_double_def e_def Let_def)
  also have "\<dots> = x / 2 powi (e - 52) * 2 powi (e - 52)"
    by (simp only: q round_half_even_of_int)
  also have "\<dots> = x" by simp
  finally show ?thesis .
qed










lemma gap_positions_double_int:
  assumes "pos \<in> \<int>" and "0 \<le> pos" and "bound \<le> 2 ^ 53 - 1"
  shows "gap_positions_double pos bound = Some (gap_positions pos bound)"
  using assms
proof (induction pos bound rule: gap_positions.induct)
  case (1 pos bound)
  show ?case
  proof (cases "pos < bound")
    case True
    from 1(2) obtain m :: int where m: "pos = of_int m" by (auto elim: Ints_cases)
    have int: "pos + 1 \<in> \<int>" using 1(2) by (intro Ints_add) simp_all
    have e: "(pos + 1) * 2 ^ 0 = of_int (m + 1)" by (simp add: m)
    from True 1(3,4) have "(of_int (m + 1) :: rat) < of_int (2 ^ 53)" "(of_int 0 :: rat) \<le> of_int (m + 1)"
      by (simp_all add: m)
    then have "m + 1 < 2 ^ 53" "0 \<le> m + 1" by (simp_all only: of_int_less_iff of_int_le_iff)
    then have "\<bar>m + 1\<bar> < 2 ^ 53" by simp
    with e have step: "to_double (pos + 1) = pos + 1" by (rule to_double_exact)
    from 1(3) have "0 \<le> pos + 1" by simp
    from 1(1) [OF True int this 1(4)]
    have "gap_positions_double (pos + 1) bound = Some (gap_positions (pos + 1) bound)" .
    with True step show ?thesis
      by (subst gap_positions_double.simps, subst gap_positions.simps) simp
  next
    case False
    then show ?thesis
      by (subst gap_positions_double.simps, subst gap_positions.simps) simp
  qed
qed

lemma leading_gap_double_below_2_53:
  assumes "firstPos \<le> 2 ^ 53 - 1"
  shows "leading_gap_double firstPos = Some (leading_gap firstPos)"
proof -
  have "gap_positions_double 1 firstPos = Some (gap_positions 1 firstPos)"
    using _ _ assms by (rule gap_positions_double_int) simp_all
  then show ?thesis by (simp add: leading_gap_double_def leading_gap_def)
qed

text \<open>Off the exact positions the two differ: for the doubles of 1.14 and 2.14 the
  difference rounds to more than 1 and \<open>1.14 + 1\<close> rounds to the double below 2.14, where
  the placeholder is put; the exact sum lies between the two doubles.\<close>

lemma doubles_of_114_214:
  "missing_positions_double series_114_214 = Some [to_double (to_double (57 / 50) + 1), 1]"
  "missing_positions series_114_214 = [to_double (57 / 50) + 1, 1]"
  "to_double (to_double (57 / 50) + 1) = 2409425800643215 / 2 ^ 50"
  "to_double (57 / 50) + 1 = 9637703202572861 / 2 ^ 52"
  "to_double (107 / 50) = 4818851601286431 / 2 ^ 51"
  by code_simp+

subsection \<open>Facts about the table and the rows that reconciliation adds\<close>

lemma fold_max_ge: "m \<le> fold max xs (m::nat)"
  by (induction xs arbitrary: m) (auto intro: order_trans [OF max.cobounded2])

lemma fold_max_mem: "x \<in> set xs \<Longrightarrow> x \<le> fold max xs (m::nat)"
proof (induction xs arbitrary: m)
  case Nil
  then show ?case by simp
next
  case (Cons y ys)
  show ?case
  proof (cases "x = y")
    case True
    have "max y m \<le> fold max ys (max y m)" by (rule fold_max_ge)
    with True show ?thesis by simp
  next
    case False
    with Cons.prems have "x \<in> set ys" by simp
    then show ?thesis by (simp add: Cons.IH)
  qed
qed

lemma next_id_fresh: "x \<in> set (rows db) \<Longrightarrow> book_id x < next_id db"
  using fold_max_mem [of "book_id x" "map book_id (rows db)" "sequence db"]
  by (simp add: next_id_def less_Suc_eq_le)

lemma upsert_without_asin:
  "asin b = None \<Longrightarrow> rows (fst (upsertAudiobook db b)) = rows db @ [b\<lparr>book_id := next_id db\<rparr>]"
  by (simp add: upsertAudiobook_def conflicts_def Let_def)

lemma add_placeholders_rows:
  "r \<in> set (rows (foldl (\<lambda>db pos. addMissingBookPlaceholder db n pos a) db ps)) \<Longrightarrow>
   r \<in> set (rows db) \<or> (\<exists>pos \<in> set ps. r = (placeholder n pos a)\<lparr>book_id := book_id r\<rparr>)"
proof (induction ps arbitrary: db)
  case Nil
  then show ?case by simp
next
  case (Cons pos ps)
  let ?db1 = "addMissingBookPlaceholder db n pos a"
  from Cons.prems have "r \<in> set (rows (foldl (\<lambda>db pos. addMissingBookPlaceholder db n pos a) ?db1 ps))"
    by simp
  from Cons.IH [OF this]
  consider "r \<in> set (rows ?db1)" | "\<exists>pos \<in> set ps. r = (placeholder n pos a)\<lparr>book_id := book_id r\<rparr>"
    by blast
  then show ?case
  proof cases
    case 1
    have "asin (placeholder n pos a) = None" by (simp add: placeholder_def)
    then have "rows ?db1 = rows db @ [(placeholder n pos a)\<lparr>book_id := next_id db\<rparr>]"
      unfolding addMissingBookPlaceholder_def by (rule upsert_without_asin)
    with 1 have "r \<in> set (rows db @ [(placeholder n pos a)\<lparr>book_id := next_id db\<rparr>])"
      by (simp only:)
    then have "r \<in> set (rows db) \<or> r = (placeholder n pos a)\<lparr>book_id := next_id db\<rparr>" by auto
    then show ?thesis
    proof
      assume "r \<in> set (rows db)" then show ?thesis by simp
    next
      assume "r = (placeholder n pos a)\<lparr>book_id := next_id db\<rparr>"
      then have "r = (placeholder n pos a)\<lparr>book_id := book_id r\<rparr>" by simp
      then show ?thesis by simp
    qed
  next
    case 2
    then show ?thesis by simp
  qed
qed

lemma detect_rows:
  "r \<in> set (rows (detectMissingSeriesBooks db sm)) \<Longrightarrow>
   r \<in> set (rows db) \<or>
   (\<exists>(n, bs) \<in> set sm. \<exists>p \<in> set (series_placeholders n bs). r = p\<lparr>book_id := book_id r\<rparr>)"
proof (induction sm arbitrary: db)
  case Nil
  then show ?case by (simp add: detectMissingSeriesBooks_def)
next
  case (Cons g sm)
  obtain n bs where g: "g = (n, bs)" by (cases g)
  let ?db1 = "foldl (\<lambda>db pos. addMissingBookPlaceholder db n pos (author (bs ! 0))) db (missing_positions bs)"
  from Cons.prems have "r \<in> set (rows (detectMissingSeriesBooks ?db1 sm))"
    by (simp add: detectMissingSeriesBooks_def g)
  from Cons.IH [OF this]
  consider "r \<in> set (rows ?db1)"
    | "\<exists>(n, bs) \<in> set sm. \<exists>p \<in> set (series_placeholders n bs). r = p\<lparr>book_id := book_id r\<rparr>"
    by blast
  then show ?case
  proof cases
    case 1
    from add_placeholders_rows [OF 1]
    have "r \<in> set (rows db) \<or> (\<exists>p \<in> set (series_placeholders n bs). r = p\<lparr>book_id := book_id r\<rparr>)"
      by (auto simp: series_placeholders_def)
    then show ?thesis by (auto simp: g)
  next
    case 2
    then show ?thesis by auto
  qed
qed

lemma add_placeholder_rows:
  "rows (addMissingBookPlaceholder db n pos a) =
     rows db @ [(placeholder n pos a)\<lparr>book_id := next_id db\<rparr>]"
  unfolding addMissingBookPlaceholder_def
  by (rule upsert_without_asin) (simp add: placeholder_def)

lemma add_placeholder_sequence:
  "sequence (addMissingBookPlaceholder db n pos a) = next_id db"
  by (simp add: addMissingBookPlaceholder_def upsertAudiobook_def Let_def)

lemma next_id_add_placeholder:
  "next_id db < next_id (addMissingBookPlaceholder db n pos a)"
proof -
  let ?db1 = "addMissingBookPlaceholder db n pos a"
  have "sequence ?db1 \<le> fold max (map book_id (rows ?db1)) (sequence ?db1)"
    by (rule fold_max_ge)
  then show ?thesis by (simp add: next_id_def [of ?db1] add_placeholder_sequence)
qed

lemma placeholder_unstored:
  "(placeholder n pos a)\<lparr>book_id := i\<rparr>\<lparr>book_id := 0\<rparr> = placeholder n pos a"
  by (simp add: placeholder_def)

lemma add_placeholders_grow:
  "\<exists>new. rows (foldl (\<lambda>db pos. addMissingBookPlaceholder db n pos a) db ps) = rows db @ new
     \<and> map (\<lambda>r. r\<lparr>book_id := 0\<rparr>) new = map (\<lambda>pos. placeholder n pos a) ps
     \<and> (\<forall>r \<in> set new. next_id db \<le> book_id r)
     \<and> next_id db \<le> next_id (foldl (\<lambda>db pos. addMissingBookPlaceholder db n pos a) db ps)"
proof (induction ps arbitrary: db)
  case Nil
  then show ?case by simp
next
  case (Cons pos ps)
  let ?db1 = "addMissingBookPlaceholder db n pos a"
  let ?p = "(placeholder n pos a)\<lparr>book_id := next_id db\<rparr>"
  from Cons.IH [of ?db1] obtain new where new:
    "rows (foldl (\<lambda>db pos. addMissingBookPlaceholder db n pos a) ?db1 ps) = rows ?db1 @ new"
    "map (\<lambda>r. r\<lparr>book_id := 0\<rparr>) new = map (\<lambda>pos. placeholder n pos a) ps"
    "\<forall>r \<in> set new. next_id ?db1 \<le> book_id r"
    "next_id ?db1 \<le> next_id (foldl (\<lambda>db pos. addMissingBookPlaceholder db n pos a) ?db1 ps)"
    by blast
  have lt: "next_id db < next_id ?db1" by (rule next_id_add_placeholder)
  have 1: "rows (foldl (\<lambda>db pos. addMissingBookPlaceholder db n pos a) db (pos # ps)) =
      rows db @ (?p # new)"
    by (simp add: new(1) add_placeholder_rows)
  have 2: "map (\<lambda>r. r\<lparr>book_id := 0\<rparr>) (?p # new) = map (\<lambda>pos. placeholder n pos a) (pos # ps)"
    by (simp add: new(2) placeholder_unstored)
  have 3: "\<forall>r \<in> set (?p # new). next_id db \<le> book_id r"
    using new(3) lt by auto
  have 4: "next_id db \<le> next_id (foldl (\<lambda>db pos. addMissingBookPlaceholder db n pos a) db (pos # ps))"
    using new(4) lt by simp
  from 1 2 3 4 show ?case by blast
qed

lemma detect_grow:
  "\<exists>new. rows (detectMissingSeriesBooks db sm) = rows db @ new
     \<and> map (\<lambda>r. r\<lparr>book_id := 0\<rparr>) new = concat (map (\<lambda>(n, bs). series_placeholders n bs) sm)
     \<and> (\<forall>r \<in> set new. next_id db \<le> book_id r)
     \<and> next_id db \<le> next_id (detectMissingSeriesBooks db sm)"
proof (induction sm arbitrary: db)
  case Nil
  then show ?case by (simp add: detectMissingSeriesBooks_def)
next
  case (Cons g sm)
  obtain n bs where g: "g = (n, bs)" by (cases g)
  let ?db1 = "foldl (\<lambda>db pos. addMissingBookPlaceholder db n pos (author (bs ! 0))) db (missing_positions bs)"
  have unfold: "detectMissingSeriesBooks db (g # sm) = detectMissingSeriesBooks ?db1 sm"
    by (simp add: detectMissingSeriesBooks_def g)
  from add_placeholders_grow [of n "author (bs ! 0)" db "missing_positions bs"]
  obtain new1 where new1: "rows ?db1 = rows db @ new1"
    "map (\<lambda>r. r\<lparr>book_id := 0\<rparr>) new1 = series_placeholders n bs"
    "\<forall>r \<in> set new1. next_id db \<le> book_id r"
    "next_id db \<le> next_id ?db1"
    unfolding series_placeholders_def by blast
  from Cons.IH [of ?db1] obtain new2 where new2:
    "rows (detectMissingSeriesBooks ?db1 sm) = rows ?db1 @ new2"
    "map (\<lambda>r. r\<lparr>book_id := 0\<rparr>) new2 = concat (map (\<lambda>(n, bs). series_placeholders n bs) sm)"
    "\<forall>r \<in> set new2. next_id ?db1 \<le> book_id r"
    "next_id ?db1 \<le> next_id (detectMissingSeriesBooks ?db1 sm)"
    by blast
  have 1: "rows (detectMissingSeriesBooks db (g # sm)) = rows db @ (new1 @ new2)"
    by (simp add: unfold new1(1) new2(1))
  have 2: "map (\<lambda>r. r\<lparr>book_id := 0\<rparr>) (new1 @ new2) =
      concat (map (\<lambda>(n, bs). series_placeholders n bs) (g # sm))"
    by (simp add: new1(2) new2(2) g)
  have 3: "\<forall>r \<in> set (new1 @ new2). next_id db \<le> book_id r"
    using new1(3,4) new2(3) by auto
  have 4: "next_id db \<le> next_id (detectMissingSeriesBooks db (g # sm))"
    using new1(4) new2(4) by (simp add: unfold)
  from 1 2 3 4 show ?case by blast
qed

lemma detect_stores:
  assumes "(n, bs) \<in> set sm" and "pos \<in> set (missing_positions bs)"
  shows "\<exists>r \<in> set (rows (detectMissingSeriesBooks db sm)).
           r = (placeholder n pos (author (bs ! 0)))\<lparr>book_id := book_id r\<rparr>
         \<and> (\<forall>x \<in> set (rows db). book_id x < book_id r)"
proof -
  from detect_grow [of db sm] obtain new where new:
    "rows (detectMissingSeriesBooks db sm) = rows db @ new"
    "map (\<lambda>r. r\<lparr>book_id := 0\<rparr>) new = concat (map (\<lambda>(n, bs). series_placeholders n bs) sm)"
    "\<forall>r \<in> set new. next_id db \<le> book_id r"
    by blast
  from assms(2) have "placeholder n pos (author (bs ! 0)) \<in> set (series_placeholders n bs)"
    by (simp add: series_placeholders_def)
  with assms(1) have "placeholder n pos (author (bs ! 0)) \<in>
      set (concat (map (\<lambda>(n, bs). series_placeholders n bs) sm))"
    by auto
  then have "placeholder n pos (author (bs ! 0)) \<in> set (map (\<lambda>r. r\<lparr>book_id := 0\<rparr>) new)"
    by (simp only: new(2))
  then obtain r where r: "r \<in> set new" "r\<lparr>book_id := 0\<rparr> = placeholder n pos (author (bs ! 0))"
    by auto
  from r(2) have "(placeholder n pos (author (bs ! 0)))\<lparr>book_id := book_id r\<rparr> =
      r\<lparr>book_id := 0\<rparr>\<lparr>book_id := book_id r\<rparr>" by simp
  then have eq: "r = (placeholder n pos (author (bs ! 0)))\<lparr>book_id := book_id r\<rparr>" by simp
  from new(3) r(1) have "next_id db \<le> book_id r" by blast
  with next_id_fresh [of _ db] have fresh: "\<forall>x \<in> set (rows db). book_id x < book_id r"
    by (auto intro: less_le_trans)
  from r(1) new(1) have "r \<in> set (rows (detectMissingSeriesBooks db sm))" by simp
  with eq fresh show ?thesis by blast
qed




lemma detect_3_4:
  "rows (detectMissingSeriesBooks empty_database [(''Foo'', series_3_4)]) =
     [(placeholder ''Foo'' 1 (Some (Str ''Ann Author'')))\<lparr>book_id := 1\<rparr>,
      (placeholder ''Foo'' 2 (Some (Str ''Ann Author'')))\<lparr>book_id := 2\<rparr>]"
  by code_simp

lemma detect_view_3_4:
  "map placeholder_view (rows (detectMissingSeriesBooks empty_database [(''Foo'', series_3_4)])) =
     [(Str ''Foo Book 1'', Some 1, False), (Str ''Foo Book 2'', Some 2, False)]"
  by code_simp

lemma stored_placeholder_not_owned:
  "r = (placeholder n pos a)\<lparr>book_id := i\<rparr> \<Longrightarrow> \<not> owned r \<and> series_position r = Some pos"
  by (simp add: placeholder_def)



subsection \<open>Interior gaps\<close>




subsection \<open>Placeholders\<close>

text \<open>C6. Every placeholder that reconciliation synthesizes for a series group is not
  owned, not listened, has no asin, no release date, no purchase date, no rating and no
  length, has the title "<seriesName> Book <position>" for the position it stands for, and
  has the author of the first record of the group. Every row that reconciliation adds to
  the table is such a placeholder under a fresh id. The object built by the JavaScript
  class has the same shape.\<close>

theorem placeholder_shape:
  "(\<forall>p \<in> set (series_placeholders seriesName books).
       \<not> owned p \<and> \<not> listened p \<and> asin p = None \<and> release_date p = None
     \<and> purchase_date p = None \<and> rating p = None \<and> length_minutes p = None
     \<and> series_name p = Some seriesName
     \<and> author p = author (books ! 0)
     \<and> (\<exists>pos \<in> set (missing_positions books).
           series_position p = Some pos
         \<and> title p = Str (seriesName @ '' Book '' @ number_toString pos)))
   \<and> (\<forall>r \<in> set (rows (detectMissingSeriesBooks db sm)).
        r \<in> set (rows db) \<or>
        (\<exists>(n, bs) \<in> set sm. \<exists>p \<in> set (series_placeholders n bs). r = p\<lparr>book_id := book_id r\<rparr>))
   \<and> (\<not> owned (placeholder_enhanced seriesName position auth)
      \<and> \<not> listened (placeholder_enhanced seriesName position auth)
      \<and> asin (placeholder_enhanced seriesName position auth) = None
      \<and> release_date (placeholder_enhanced seriesName position auth) = None
      \<and> purchase_date (placeholder_enhanced seriesName position auth) = None
      \<and> rating (placeholder_enhanced seriesName position auth) = None
      \<and> length_minutes (placeholder_enhanced seriesName position auth) = None
      \<and> author (placeholder_enhanced seriesName position auth) = auth
      \<and> title (placeholder_enhanced seriesName position auth) =
          Str (seriesName @ '' Book '' @ number_toString position))"
proof (intro conjI ballI)
  fix p assume "p \<in> set (series_placeholders seriesName books)"
  then obtain pos where pos: "pos \<in> set (missing_positions books)"
    "p = placeholder seriesName pos (author (books ! 0))"
    by (auto simp: series_placeholders_def)
  show "\<not> owned p" "\<not> listened p" "asin p = None" "release_date p = None"
    "purchase_date p = None" "rating p = None" "length_minutes p = None"
    "series_name p = Some seriesName" "author p = author (books ! 0)"
    by (simp_all add: pos(2) placeholder_def)
  from pos show "\<exists>pos \<in> set (missing_positions books).
           series_position p = Some pos
         \<and> title p = Str (seriesName @ '' Book '' @ number_toString pos)"
    by (auto simp: placeholder_def)
next
  fix r assume "r \<in> set (rows (detectMissingSeriesBooks db sm))"
  then show "r \<in> set (rows db) \<or>
        (\<exists>(n, bs) \<in> set sm. \<exists>p \<in> set (series_placeholders n bs). r = p\<lparr>book_id := book_id r\<rparr>)"
    by (rule detect_rows)
qed (simp_all add: placeholder_enhanced_def)

lemma number_toString_2: "number_toString 2 = ''2''" by code_simp

theorem placeholder_shape_witness:
  "placeholder ''Foo'' 2 (Some (Str ''Ann Author'')) \<in> set (series_placeholders ''Foo'' series_1_3_5)
   \<and> \<not> owned (placeholder ''Foo'' 2 (Some (Str ''Ann Author'')))
   \<and> title (placeholder ''Foo'' 2 (Some (Str ''Ann Author''))) = Str ''Foo Book 2''
   \<and> author (placeholder ''Foo'' 2 (Some (Str ''Ann Author''))) = author (series_1_3_5 ! 0)"
proof -
  have a: "author (series_1_3_5 ! 0) = Some (Str ''Ann Author'')"
    by (simp add: series_1_3_5_def book_at_def)
  have m: "placeholder ''Foo'' 2 (Some (Str ''Ann Author'')) \<in> set (series_placeholders ''Foo'' series_1_3_5)"
    by (simp add: series_placeholders_def missing_positions_1_3_5 a)
  have t: "title (placeholder ''Foo'' 2 (Some (Str ''Ann Author''))) = Str ''Foo Book 2''"
    by (simp add: placeholder_def number_toString_2)
  from placeholder_shape [of "''Foo''" series_1_3_5] m
  have "\<not> owned (placeholder ''Foo'' 2 (Some (Str ''Ann Author'')))
     \<and> author (placeholder ''Foo'' 2 (Some (Str ''Ann Author''))) = author (series_1_3_5 ! 0)"
    by blast
  with m t show ?thesis by blast
qed

subsection \<open>Leading gap\<close>

text \<open>C4. For a series group of the batch with at least two positioned records whose
  smallest known position is greater than 1, reconciliation synthesizes a placeholder at
  every integer position from 1 up to but not including that smallest position: after
  reconciliation the table holds, under an id that is new, a placeholder that is not owned
  at each of them, and the leading part of the placeholders is exactly these. The
  positions 3, 4 give the placeholders at exactly 1 and 2. (Up to a smallest position of
  \<open>2\<^sup>5\<^sup>3 - 1\<close> the loop in double precision counts through the same integers.)\<close>

theorem leading_placeholders_stored:
  assumes "(seriesName, books) \<in> set sm"
    and "2 \<le> length (positioned books)"
    and "firstPos \<in> set (known_positions books)"
    and "\<forall>p \<in> set (known_positions books). firstPos \<le> p"
    and "1 < firstPos"
  shows "(\<forall>k::nat. 1 \<le> k \<and> of_nat k < firstPos \<longrightarrow>
            (\<exists>r \<in> set (rows (detectMissingSeriesBooks db sm)).
               r = (placeholder seriesName (of_nat k) (author (books ! 0)))\<lparr>book_id := book_id r\<rparr>
             \<and> \<not> owned r
             \<and> (\<forall>x \<in> set (rows db). book_id x < book_id r)))
    \<and> (\<forall>k::nat. 1 \<le> k \<and> of_nat k < firstPos \<longrightarrow> of_nat k \<in> set (missing_positions books))
    \<and> (firstPos \<le> 2 ^ 53 - 1 \<longrightarrow> leading_gap_double firstPos = Some (leading_gap firstPos))
    \<and> missing_positions books = interior_gaps (sorted_positions books) @ leading_gap firstPos
    \<and> set (leading_gap firstPos) = {of_nat k | k. 1 \<le> k \<and> (of_nat k :: rat) < firstPos}
    \<and> missing_positions series_3_4 = [1, 2]
    \<and> rows (detectMissingSeriesBooks empty_database [(''Foo'', series_3_4)]) =
        [(placeholder ''Foo'' 1 (Some (Str ''Ann Author'')))\<lparr>book_id := 1\<rparr>,
         (placeholder ''Foo'' 2 (Some (Str ''Ann Author'')))\<lparr>book_id := 2\<rparr>]
    \<and> map placeholder_view (rows (detectMissingSeriesBooks empty_database [(''Foo'', series_3_4)])) =
        [(Str ''Foo Book 1'', Some 1, False), (Str ''Foo Book 2'', Some 2, False)]"
proof -
  have first: "sorted_positions books ! 0 = firstPos"
    using assms(2-4) by (rule first_sorted_position_least)
  have eq: "missing_positions books = interior_gaps (sorted_positions books) @ leading_gap firstPos"
    using missing_positions_eq [OF assms(2)] by (simp only: first)
  have mem: "of_nat k \<in> set (missing_positions books)"
    if "1 \<le> k \<and> (of_nat k :: rat) < firstPos" for k :: nat
  proof -
    from that have "of_nat k \<in> set (leading_gap firstPos)" unfolding set_leading_gap by blast
    then show ?thesis by (simp add: eq)
  qed
  have stored: "\<exists>r \<in> set (rows (detectMissingSeriesBooks db sm)).
               r = (placeholder seriesName (of_nat k) (author (books ! 0)))\<lparr>book_id := book_id r\<rparr>
             \<and> \<not> owned r
             \<and> (\<forall>x \<in> set (rows db). book_id x < book_id r)"
    if "1 \<le> k \<and> (of_nat k :: rat) < firstPos" for k :: nat
  proof -
    from detect_stores [OF assms(1) mem [OF that], of db] obtain r where
      r: "r \<in> set (rows (detectMissingSeriesBooks db sm))"
      "r = (placeholder seriesName (of_nat k) (author (books ! 0)))\<lparr>book_id := book_id r\<rparr>"
      "\<forall>x \<in> set (rows db). book_id x < book_id r" by blast
    from stored_placeholder_not_owned [OF r(2)] have "\<not> owned r" by simp
    with r show ?thesis by blast
  qed
  show ?thesis
  proof (intro conjI allI impI)
    fix k :: nat assume k: "1 \<le> k \<and> of_nat k < firstPos"
    then show "\<exists>r \<in> set (rows (detectMissingSeriesBooks db sm)).
               r = (placeholder seriesName (of_nat k) (author (books ! 0)))\<lparr>book_id := book_id r\<rparr>
             \<and> \<not> owned r
             \<and> (\<forall>x \<in> set (rows db). book_id x < book_id r)" by (rule stored)
    from k show "of_nat k \<in> set (missing_positions books)" by (rule mem)
  next
    assume "firstPos \<le> 2 ^ 53 - 1"
    then show "leading_gap_double firstPos = Some (leading_gap firstPos)"
      by (rule leading_gap_double_below_2_53)
  next
    show "missing_positions books = interior_gaps (sorted_positions books) @ leading_gap firstPos"
      by (rule eq)
    show "set (leading_gap firstPos) = {of_nat k | k. 1 \<le> k \<and> (of_nat k :: rat) < firstPos}"
      by (rule set_leading_gap)
    show "missing_positions series_3_4 = [1, 2]" by (rule missing_positions_3_4)
    show "rows (detectMissingSeriesBooks empty_database [(''Foo'', series_3_4)]) =
        [(placeholder ''Foo'' 1 (Some (Str ''Ann Author'')))\<lparr>book_id := 1\<rparr>,
         (placeholder ''Foo'' 2 (Some (Str ''Ann Author'')))\<lparr>book_id := 2\<rparr>]"
      by (rule detect_3_4)
    show "map placeholder_view (rows (detectMissingSeriesBooks empty_database [(''Foo'', series_3_4)])) =
        [(Str ''Foo Book 1'', Some 1, False), (Str ''Foo Book 2'', Some 2, False)]"
      by (rule detect_view_3_4)
  qed
qed

theorem leading_placeholders_stored_witness:
  "(''Foo'', series_3_4) \<in> set [(''Foo'', series_3_4)]
   \<and> 2 \<le> length (positioned series_3_4) \<and> known_positions series_3_4 = [3, 4] \<and> (1::rat) < 3
   \<and> Some 1 \<in> set (map series_position
        (rows (detectMissingSeriesBooks empty_database [(''Foo'', series_3_4)])))
   \<and> Some 2 \<in> set (map series_position
        (rows (detectMissingSeriesBooks empty_database [(''Foo'', series_3_4)])))"
proof -
  let ?sm = "[(''Foo'', series_3_4)]"
  have sm: "(''Foo'', series_3_4) \<in> set ?sm" by simp
  have kp: "known_positions series_3_4 = [3, 4]" by code_simp
  have len: "2 \<le> length (positioned series_3_4)" by code_simp
  have mem: "3 \<in> set (known_positions series_3_4)" by (simp add: kp)
  have least: "\<forall>p \<in> set (known_positions series_3_4). 3 \<le> p" by (simp add: kp)
  have gt: "(1::rat) < 3" by simp
  from leading_placeholders_stored [OF sm len mem least gt, of empty_database]
  have all: "\<forall>k::nat. 1 \<le> k \<and> of_nat k < (3::rat) \<longrightarrow>
            (\<exists>r \<in> set (rows (detectMissingSeriesBooks empty_database ?sm)).
               r = (placeholder ''Foo'' (of_nat k) (author (series_3_4 ! 0)))\<lparr>book_id := book_id r\<rparr>
             \<and> \<not> owned r
             \<and> (\<forall>x \<in> set (rows empty_database). book_id x < book_id r))"
    by (rule conjunct1)
  have stored: "Some (of_nat k) \<in> set (map series_position
        (rows (detectMissingSeriesBooks empty_database ?sm)))"
    if "1 \<le> k \<and> of_nat k < (3::rat)" for k :: nat
  proof -
    from all that obtain r where r: "r \<in> set (rows (detectMissingSeriesBooks empty_database ?sm))"
      "r = (placeholder ''Foo'' (of_nat k) (author (series_3_4 ! 0)))\<lparr>book_id := book_id r\<rparr>"
      by blast
    from stored_placeholder_not_owned [OF r(2)] have "series_position r = Some (of_nat k)" by simp
    with r(1) show ?thesis by force
  qed
  have "(1::nat) \<le> 1 \<and> (of_nat 1 :: rat) < 3" "(1::nat) \<le> 2 \<and> (of_nat 2 :: rat) < 3" by simp_all
  from stored [OF this(1)] stored [OF this(2)]
  have "Some 1 \<in> set (map series_position (rows (detectMissingSeriesBooks empty_database ?sm)))"
    "Some 2 \<in> set (map series_position (rows (detectMissingSeriesBooks empty_database ?sm)))"
    by simp_all
  with sm len kp gt show ?thesis by blast
qed

subsection \<open>Groups that are skipped\<close>

text \<open>C5. A series group with fewer than two records, or with fewer than two records that
  have a position, gets no placeholder and leaves the table as it is; in particular a
  series with a single record at position 2.\<close>

theorem no_placeholders_below_two_positioned:
  "(length books < 2 \<or> length (positioned books) < 2 \<longrightarrow>
      missing_positions books = [] \<and> series_placeholders seriesName books = []
      \<and> detectMissingSeriesBooks db [(seriesName, books)] = db)
   \<and> series_placeholders ''Foo'' series_2 = []
   \<and> detectMissingSeriesBooks db [(''Foo'', series_2)] = db"
proof -
  have gen: "missing_positions bs = [] \<and> series_placeholders n bs = []
      \<and> detectMissingSeriesBooks db [(n, bs)] = db"
    if "length bs < 2 \<or> length (positioned bs) < 2" for bs n
  proof -
    from that have "missing_positions bs = []"
      by (auto simp: missing_positions_def length_sortedBooks)
    then show ?thesis by (simp add: series_placeholders_def detectMissingSeriesBooks_def)
  qed
  have "length series_2 < 2" by (simp add: series_2_def)
  with gen [of series_2 "''Foo''"] gen [of books seriesName] show ?thesis by blast
qed

theorem no_placeholders_below_two_positioned_witness:
  "length series_2 < 2 \<and> known_positions series_2 = [2] \<and> missing_positions series_2 = []
   \<and> detectMissingSeriesBooks empty_database [(''Foo'', series_2)] = empty_database"
proof -
  have l: "length series_2 < 2" by (simp add: series_2_def)
  have k: "known_positions series_2 = [2]" by code_simp
  from l no_placeholders_below_two_positioned [of series_2 "''Foo''" empty_database]
  show ?thesis using k by blast
qed

subsection \<open>The summary of an ingestion\<close>

lemma foo_ingestion:
  "parseLibationExport no_dates empty_database foo_table =
     Inr (foo_store, \<lparr> processed = 3, series = 1, missingBooksFound = 1 \<rparr>)"
  by code_simp

lemma foo_store_rows:
  "length (rows foo_store) = 4 \<and> map owned (rows foo_store) = [True, True, True, False]
   \<and> map series_position (rows foo_store) = [Some 1, Some 2, Some 4, Some 3]"
  by code_simp

text \<open>C8. When \<^verbatim>\<open>parseLibationExport\<close> succeeds, the field \<^verbatim>\<open>missingBooksFound\<close>
  of its summary is the number of stored rows that are not owned, counted after the
  ingestion. Ingesting the three rows of the series "Foo" at the positions 1, 2 and 4 into
  an empty table stores four rows, three owned and one placeholder at position 3, and
  reports one missing book.\<close>

theorem missingBooksFound_counts_unowned:
  "(\<forall>db' s. parseLibationExport toISODate db data = Inr (db', s) \<longrightarrow>
       missingBooksFound s = length (filter (\<lambda>b. \<not> owned b) (rows db')))
   \<and> parseLibationExport no_dates empty_database foo_table =
       Inr (foo_store, \<lparr> processed = 3, series = 1, missingBooksFound = 1 \<rparr>)
   \<and> length (rows foo_store) = 4
   \<and> map owned (rows foo_store) = [True, True, True, False]
   \<and> map series_position (rows foo_store) = [Some 1, Some 2, Some 4, Some 3]"
proof (intro conjI allI impI)
  fix db' s
  assume "parseLibationExport toISODate db data = Inr (db', s)"
  then show "missingBooksFound s = length (filter (\<lambda>b. \<not> owned b) (rows db'))"
    by (auto simp: parseLibationExport_def getMissingBooksCount_def Let_def
        split: sum.splits prod.splits)
qed (simp_all add: foo_ingestion foo_store_rows)

theorem missingBooksFound_counts_unowned_witness:
  "parseLibationExport no_dates empty_database foo_table =
     Inr (foo_store, \<lparr> processed = 3, series = 1, missingBooksFound = 1 \<rparr>)
   \<and> length (filter (\<lambda>b. \<not> owned b) (rows foo_store)) = 1"
proof -
  from missingBooksFound_counts_unowned [of no_dates empty_database foo_table]
  have run: "parseLibationExport no_dates empty_database foo_table =
     Inr (foo_store, \<lparr> processed = 3, series = 1, missingBooksFound = 1 \<rparr>)"
    and count: "\<forall>db' s. parseLibationExport no_dates empty_database foo_table = Inr (db', s) \<longrightarrow>
       missingBooksFound s = length (filter (\<lambda>b. \<not> owned b) (rows db'))"
    by blast+
  from count run
  have "missingBooksFound \<lparr> processed = 3, series = 1, missingBooksFound = 1 \<rparr> =
        length (filter (\<lambda>b. \<not> owned b) (rows foo_store))" by blast
  with run show ?thesis by simp
qed

subsection \<open>Re-ingestion of a stored asin\<close>

lemma normalize_not_listened:
  "normalizeLibationData toISODate r = Inr b \<Longrightarrow> \<not> listened b \<and> owned b"
  by (auto simp: normalizeLibationData_def split: sum.splits)

text \<open>C10. When the asin of an ingested row is that of a stored row, \<^verbatim>\<open>upsertAudiobook\<close>
  replaces the stored row by the newly normalized record: the only row left under that
  asin is the new one, it is not listened, and its id is larger than every id of the table
  before, so the old row, its listened flag and its id are gone. In the scenario the row
  of "B001" is stored under id 1, marked as listened, and after the second ingestion found
  under id 5 and not listened.\<close>

theorem reingestion_replaces_row:
  assumes "normalizeLibationData toISODate r = Inr b"
    and "asin b = Some a"
    and "old \<in> set (rows db)"
    and "asin old = Some a"
  shows "(\<forall>x \<in> set (rows (fst (upsertAudiobook db b))).
            asin x = Some a \<longrightarrow> x = b\<lparr>book_id := snd (upsertAudiobook db b)\<rparr>)
    \<and> b\<lparr>book_id := snd (upsertAudiobook db b)\<rparr> \<in> set (rows (fst (upsertAudiobook db b)))
    \<and> \<not> listened (b\<lparr>book_id := snd (upsertAudiobook db b)\<rparr>)
    \<and> (\<forall>x \<in> set (rows db). book_id x < snd (upsertAudiobook db b))
    \<and> old \<notin> set (rows (fst (upsertAudiobook db b)))
    \<and> stored_under (Str ''B001'') (fst (markAsListened foo_store 1)) = [(1, True)]
    \<and> map_sum id (\<lambda>(db', s). stored_under (Str ''B001'') db')
         (parseLibationExport no_dates (fst (markAsListened foo_store 1)) foo_table) =
       Inr [(5, False)]"
proof -
  have i: "snd (upsertAudiobook db b) = next_id db" by (simp add: upsertAudiobook_def Let_def)
  have rs: "rows (fst (upsertAudiobook db b)) =
      filter (\<lambda>x. asin x \<noteq> Some a) (rows db) @ [b\<lparr>book_id := next_id db\<rparr>]"
    using assms(2) by (simp add: upsertAudiobook_def Let_def conflicts_def)
  have fresh: "\<forall>x \<in> set (rows db). book_id x < next_id db" by (simp add: next_id_fresh)
  have 1: "\<forall>x \<in> set (rows (fst (upsertAudiobook db b))).
            asin x = Some a \<longrightarrow> x = b\<lparr>book_id := snd (upsertAudiobook db b)\<rparr>"
    by (auto simp: rs i)
  have 2: "b\<lparr>book_id := snd (upsertAudiobook db b)\<rparr> \<in> set (rows (fst (upsertAudiobook db b)))"
    by (simp add: rs i)
  have 3: "\<not> listened (b\<lparr>book_id := snd (upsertAudiobook db b)\<rparr>)"
    using normalize_not_listened [OF assms(1)] by simp
  have 4: "old \<notin> set (rows (fst (upsertAudiobook db b)))"
  proof
    assume "old \<in> set (rows (fst (upsertAudiobook db b)))"
    with 1 assms(4) have "old = b\<lparr>book_id := snd (upsertAudiobook db b)\<rparr>" by blast
    then have "book_id old = next_id db" by (simp add: i)
    with fresh assms(3) show False by auto
  qed
  have 5: "stored_under (Str ''B001'') (fst (markAsListened foo_store 1)) = [(1, True)]"
    by code_simp
  have 6: "map_sum id (\<lambda>(db', s). stored_under (Str ''B001'') db')
         (parseLibationExport no_dates (fst (markAsListened foo_store 1)) foo_table) =
       Inr [(5, False)]"
    by code_simp
  from 1 2 3 4 5 6 fresh show ?thesis by (simp only: i simp_thms)
qed

theorem reingestion_replaces_row_witness:
  "normalizeLibationData no_dates (foo_row ''B001'' 1) =
     Inr ((book_at 1)\<lparr>asin := Some (Str ''B001''), title := Str ''Foo B001''\<rparr>)
   \<and> listened_row \<in> set (rows (fst (markAsListened foo_store 1)))
   \<and> listened listened_row
   \<and> listened_row \<notin> set (rows (fst (upsertAudiobook (fst (markAsListened foo_store 1))
        ((book_at 1)\<lparr>asin := Some (Str ''B001''), title := Str ''Foo B001''\<rparr>))))
   \<and> book_id listened_row < snd (upsertAudiobook (fst (markAsListened foo_store 1))
        ((book_at 1)\<lparr>asin := Some (Str ''B001''), title := Str ''Foo B001''\<rparr>))"
proof -
  let ?b = "(book_at 1)\<lparr>asin := Some (Str ''B001''), title := Str ''Foo B001''\<rparr>"
  have n: "normalizeLibationData no_dates (foo_row ''B001'' 1) = Inr ?b" by code_simp
  have a: "asin ?b = Some (Str ''B001'')" by simp
  have m: "listened_row \<in> set (rows (fst (markAsListened foo_store 1)))" by code_simp
  have o: "asin listened_row = Some (Str ''B001'')" by (simp add: listened_row_def)
  have l: "listened listened_row" by (simp add: listened_row_def)
  from reingestion_replaces_row [OF n a m o] m
  have "listened_row \<notin> set (rows (fst (upsertAudiobook (fst (markAsListened foo_store 1)) ?b)))"
    "book_id listened_row < snd (upsertAudiobook (fst (markAsListened foo_store 1)) ?b)"
    by blast+
  with n m l show ?thesis by blast
qed

subsection \<open>Ingesting the same rows twice\<close>

text \<open>C1. Ingesting the same rows twice is claimed to store what one ingestion stores. A
  placeholder has no asin, so \<^verbatim>\<open>INSERT OR REPLACE\<close> finds no row in conflict and
  always adds a row: after the second ingestion of the scenario the table holds the
  placeholder "Foo Book 3" twice and two missing books are reported.\<close>

theorem second_ingestion_duplicates_placeholder:
  "outcome (parseLibationExport no_dates empty_database foo_table) =
     Inr ([(Some (Str ''B001''), Str ''Foo B001'', Some ''Foo'', Some 1, True, False),
           (Some (Str ''B002''), Str ''Foo B002'', Some ''Foo'', Some 2, True, False),
           (Some (Str ''B004''), Str ''Foo B004'', Some ''Foo'', Some 4, True, False),
           (None, Str ''Foo Book 3'', Some ''Foo'', Some 3, False, False)], 1)
   \<and> outcome (ingest_twice no_dates empty_database foo_table) =
     Inr ([(None, Str ''Foo Book 3'', Some ''Foo'', Some 3, False, False),
           (Some (Str ''B001''), Str ''Foo B001'', Some ''Foo'', Some 1, True, False),
           (Some (Str ''B002''), Str ''Foo B002'', Some ''Foo'', Some 2, True, False),
           (Some (Str ''B004''), Str ''Foo B004'', Some ''Foo'', Some 4, True, False),
           (None, Str ''Foo Book 3'', Some ''Foo'', Some 3, False, False)], 2)
   \<and> rows (addMissingBookPlaceholder db seriesName position auth) =
       rows db @ [(placeholder seriesName position auth)\<lparr>book_id := next_id db\<rparr>]"
proof (intro conjI)
  show "rows (addMissingBookPlaceholder db seriesName position auth) =
       rows db @ [(placeholder seriesName position auth)\<lparr>book_id := next_id db\<rparr>]"
    unfolding addMissingBookPlaceholder_def
    by (rule upsert_without_asin) (simp add: placeholder_def)
qed code_simp+

subsection \<open>Defaults of normalization\<close>























end
